theory Spec2Isabelle
  imports Complex_Main
begin

section \<open>JavaScript values\<close>

text \<open>
  The pages receive parsed JSON from the API and branch on JavaScript truthiness
  (\<^verbatim>\<open>a || b\<close>, \<^verbatim>\<open>a && b\<close>, \<^verbatim>\<open>typeof a === 'object'\<close>).
  A value is one of the JavaScript kinds; a number is the value of its double (JSON has
  neither NaN nor infinities); a string is its list of code units (restricted to the
  range of \<^typ>\<open>char\<close>); an object is its list of own enumerable properties, keys
  unique, in insertion order.
\<close>

datatype jsval =
    JUndefined
  | JNull
  | JBool bool
  | JNum rat
  | JStr string
  | JArr "jsval list"
  | JObj "(string \<times> jsval) list"

type_synonym jsobj = "(string \<times> jsval) list"

text \<open>ToBoolean: \<^verbatim>\<open>undefined\<close>, \<^verbatim>\<open>null\<close>, \<^verbatim>\<open>false\<close>, \<^verbatim>\<open>0\<close> and \<^verbatim>\<open>""\<close> are falsy, everything else
  (every object and array too) is truthy.\<close>

fun truthy :: "jsval \<Rightarrow> bool" where
  "truthy JUndefined = False"
| "truthy JNull = False"
| "truthy (JBool b) = b"
| "truthy (JNum r) = (r \<noteq> 0)"
| "truthy (JStr s) = (s \<noteq> [])"
| "truthy (JArr xs) = True"
| "truthy (JObj kvs) = True"

text \<open>\<^verbatim>\<open>a || b\<close> and \<^verbatim>\<open>a && b\<close> return one of their operands.\<close>

definition js_or :: "jsval \<Rightarrow> jsval \<Rightarrow> jsval" where
  "js_or a b = (if truthy a then a else b)"

definition js_and :: "jsval \<Rightarrow> jsval \<Rightarrow> jsval" where
  "js_and a b = (if truthy a then b else a)"

text \<open>\<^verbatim>\<open>typeof v === 'object'\<close>: true of objects, arrays and \<^verbatim>\<open>null\<close>.\<close>

fun typeof_object :: "jsval \<Rightarrow> bool" where
  "typeof_object JNull = True"
| "typeof_object (JArr xs) = True"
| "typeof_object (JObj kvs) = True"
| "typeof_object v = False"

text \<open>Property read \<^verbatim>\<open>o.k\<close> on an object: the property's value, \<^verbatim>\<open>undefined\<close> when absent.\<close>

definition own_prop :: "jsobj \<Rightarrow> string \<Rightarrow> jsval" where
  "own_prop obj k = (case map_of obj k of None \<Rightarrow> JUndefined | Some v \<Rightarrow> v)"

text \<open>
  Property read \<^verbatim>\<open>v.k\<close> on any value. On \<^verbatim>\<open>undefined\<close> and \<^verbatim>\<open>null\<close> JavaScript throws
  a TypeError (\<open>None\<close>); on a primitive or an array the named data properties used by
  the pages do not exist and the read gives \<^verbatim>\<open>undefined\<close>.
\<close>

fun get :: "jsval \<Rightarrow> string \<Rightarrow> jsval option" where
  "get JUndefined k = None"
| "get JNull k = None"
| "get (JObj kvs) k = Some (own_prop kvs k)"
| "get v k = Some JUndefined"

text \<open>
  Strict equality \<^verbatim>\<open>a === b\<close>. Primitives compare by kind and value. Objects and arrays
  compare by reference; the operands compared by the pages come from different JSON
  parses or literals, so two of them are never the same reference.
\<close>

fun strict_eq :: "jsval \<Rightarrow> jsval \<Rightarrow> bool" where
  "strict_eq JUndefined JUndefined = True"
| "strict_eq JNull JNull = True"
| "strict_eq (JBool a) (JBool b) = (a = b)"
| "strict_eq (JNum a) (JNum b) = (a = b)"
| "strict_eq (JStr a) (JStr b) = (a = b)"
| "strict_eq a b = False"

section \<open>Strings\<close>

text \<open>The white space and line terminators that \<^verbatim>\<open>String.prototype.trim\<close> strips, within
  the code units of \<^typ>\<open>char\<close>: TAB, LF, VT, FF, CR, space and NBSP.\<close>

definition is_space :: "char \<Rightarrow> bool" where
  "is_space c = (of_char c \<in> {9, 10, 11, 12, 13, 32, 160 :: nat})"

definition trim :: "string \<Rightarrow> string" where
  "trim s = rev (dropWhile is_space (rev (dropWhile is_space s)))"

text \<open>\<^verbatim>\<open>s.includes(t)\<close>: \<open>t\<close> occurs in \<open>s\<close> as a contiguous run.\<close>

fun starts_with :: "string \<Rightarrow> string \<Rightarrow> bool" where
  "starts_with s [] = True"
| "starts_with [] (c # t) = False"
| "starts_with (d # s) (c # t) = (d = c \<and> starts_with s t)"

fun js_includes :: "string \<Rightarrow> string \<Rightarrow> bool" where
  "js_includes [] t = (t = [])"
| "js_includes (d # s) t = (starts_with (d # s) t \<or> js_includes s t)"

text \<open>Decimal rendering of a non-negative integer, as a template literal prints it.\<close>

definition digit_char :: "nat \<Rightarrow> char" where
  "digit_char d = char_of (48 + d)"

fun dec :: "nat \<Rightarrow> string" where
  "dec n = (if n < 10 then [digit_char n] else dec (n div 10) @ [digit_char (n mod 10)])"

declare dec.simps [simp del]

section \<open>Knowledge Base page: the web-URL input list\<close>

text \<open>
  \<^verbatim>\<open>const [webUrls, setWebUrls] = useState([""])\<close>. A slot of the array holds a string, or
  \<^verbatim>\<open>undefined\<close>, or is a hole of a sparse array (what an assignment beyond the end leaves
  behind).
\<close>

datatype slot = Url string | Undef | Hole

definition initial_webUrls :: "slot list" where
  "initial_webUrls = [Url []]"

text \<open>\<^verbatim>\<open>[...webUrls]\<close>: the iterator reads a hole as \<^verbatim>\<open>undefined\<close>.\<close>

fun spread_slot :: "slot \<Rightarrow> slot" where
  "spread_slot Hole = Undef"
| "spread_slot v = v"

definition spread :: "slot list \<Rightarrow> slot list" where
  "spread xs = map spread_slot xs"

text \<open>\<^verbatim>\<open>if (webUrls.length < 5) setWebUrls([...webUrls, ""])\<close>\<close>

definition addWebUrlField :: "slot list \<Rightarrow> slot list" where
  "addWebUrlField webUrls =
     (if length webUrls < 5 then spread webUrls @ [Url []] else webUrls)"

text \<open>\<^verbatim>\<open>if (webUrls.length > 1) setWebUrls(webUrls.filter((_, i) => i !== index))\<close>;
  \<^verbatim>\<open>filter\<close> does not visit holes, so they are dropped.\<close>

definition removeWebUrlField :: "slot list \<Rightarrow> nat \<Rightarrow> slot list" where
  "removeWebUrlField webUrls index =
     (if length webUrls > 1
      then map fst (filter (\<lambda>(v, i). v \<noteq> Hole \<and> i \<noteq> index)
                           (zip webUrls [0 ..< length webUrls]))
      else webUrls)"

text \<open>\<^verbatim>\<open>const newUrls = [...webUrls]; newUrls[index] = value; setWebUrls(newUrls)\<close>;
  an index at or beyond the end extends the array, leaving holes in between.\<close>

definition updateWebUrl :: "slot list \<Rightarrow> nat \<Rightarrow> string \<Rightarrow> slot list" where
  "updateWebUrl webUrls index v =
     (let newUrls = spread webUrls in
      if index < length newUrls then newUrls[index := Url v]
      else newUrls @ replicate (index - length newUrls) Hole @ [Url v])"

text \<open>The events of the web-sources tab. A text field reports a change with the index of
  its own row; the remove button of a row passes that row's index; a successful
  submission resets the list with \<^verbatim>\<open>setWebUrls([""])\<close>.\<close>

datatype web_event = AddField | RemoveField nat | UpdateField nat string | ResetFields

fun web_step :: "slot list \<Rightarrow> web_event \<Rightarrow> slot list" where
  "web_step xs AddField = addWebUrlField xs"
| "web_step xs (RemoveField i) = removeWebUrlField xs i"
| "web_step xs (UpdateField i v) = updateWebUrl xs i v"
| "web_step xs ResetFields = [Url []]"

text \<open>An event sequence the rendered page can produce: every changed field is a row of the
  list as it is when the event fires (\<^verbatim>\<open>webUrls.map((url, index) => ...)\<close>).\<close>

fun rendered :: "slot list \<Rightarrow> web_event list \<Rightarrow> bool" where
  "rendered xs [] = True"
| "rendered xs (e # es) =
     ((case e of UpdateField i v \<Rightarrow> i < length xs | _ \<Rightarrow> True) \<and> rendered (web_step xs e) es)"

definition web_run :: "slot list \<Rightarrow> web_event list \<Rightarrow> slot list" where
  "web_run xs es = foldl web_step xs es"

definition web_inv :: "slot list \<Rightarrow> bool" where
  "web_inv xs = (1 \<le> length xs \<and> length xs \<le> 5 \<and> Hole \<notin> set xs)"

section \<open>The web-URL list keeps its bounds\<close>

lemma filter_index_length:
  "Hole \<notin> set xs \<Longrightarrow>
   length (filter (\<lambda>(v, i). v \<noteq> Hole \<and> i \<noteq> k) (zip xs [m ..< m + length xs]))
     = length xs - (if m \<le> k \<and> k < m + length xs then 1 else 0)"
proof (induction xs arbitrary: m)
  case Nil
  then show ?case by simp
next
  case (Cons x xs)
  have u: "[m ..< m + length (x # xs)] = m # [Suc m ..< Suc m + length xs]"
    by (simp add: upt_rec)
  from Cons.prems have nh: "Hole \<notin> set xs" and xh: "x \<noteq> Hole" by auto
  show ?case
    unfolding u using Cons.IH [OF nh, of "Suc m"] xh by auto
qed

lemma removeWebUrlField_length:
  assumes "Hole \<notin> set xs"
  shows "length (removeWebUrlField xs k)
           = (if 1 < length xs \<and> k < length xs then length xs - 1 else length xs)"
  using filter_index_length [OF assms, of k 0]
  by (simp add: removeWebUrlField_def)

lemma removeWebUrlField_no_hole:
  "Hole \<notin> set xs \<Longrightarrow> Hole \<notin> set (removeWebUrlField xs k)"
  by (auto simp: removeWebUrlField_def dest: set_zip_leftD)

lemma spread_slot_not_hole: "spread_slot a \<noteq> Hole"
  by (cases a) simp_all

lemma spread_no_hole: "Hole \<notin> set (spread xs)"
  unfolding spread_def by (metis imageE list.set_map spread_slot_not_hole)

lemma length_spread: "length (spread xs) = length xs"
  by (simp add: spread_def)

lemma updateWebUrl_in_range:
  "k < length xs \<Longrightarrow> updateWebUrl xs k v = (spread xs)[k := Url v]"
  by (simp add: updateWebUrl_def length_spread)

lemma web_step_inv:
  assumes "web_inv xs" and "case e of UpdateField i v \<Rightarrow> i < length xs | _ \<Rightarrow> True"
  shows "web_inv (web_step xs e)"
proof (cases e)
  case AddField
  with assms(1) show ?thesis
    using spread_no_hole [of xs]
    by (auto simp: web_inv_def addWebUrlField_def length_spread)
next
  case (RemoveField k)
  with assms(1) show ?thesis
    using removeWebUrlField_no_hole [of xs k] removeWebUrlField_length [of xs k]
    by (auto simp: web_inv_def)
next
  case (UpdateField k v)
  with assms have "k < length xs" by simp
  with assms(1) UpdateField show ?thesis
    using spread_no_hole [of xs]
    by (auto simp: web_inv_def updateWebUrl_in_range length_spread dest!: set_update_subset_insert [THEN subsetD])
next
  case ResetFields
  then show ?thesis by (simp add: web_inv_def)
qed

lemma web_run_inv:
  "web_inv xs \<Longrightarrow> rendered xs es \<Longrightarrow> web_inv (web_run xs es)"
  unfolding web_run_def
  by (induction es arbitrary: xs) (auto intro: web_step_inv)

text \<open>
  Claim C10. The web-URL list of the Knowledge Base page starts with one entry;
  \<open>addWebUrlField\<close> appends one entry exactly when the length is below 5 and otherwise
  leaves the list alone; \<open>removeWebUrlField\<close> removes one entry exactly when the length is
  above 1 (and the index is a row); \<open>updateWebUrl\<close> on a row keeps the length. Hence after
  every sequence of events of the rendered page the list has between 1 and 5 entries.
\<close>

theorem webUrls_length_between_1_and_5:
  "length initial_webUrls = 1 \<and>
   length (addWebUrlField xs) = (if length xs < 5 then length xs + 1 else length xs) \<and>
   (Hole \<notin> set xs \<longrightarrow>
      length (removeWebUrlField xs k)
        = (if 1 < length xs \<and> k < length xs then length xs - 1 else length xs)) \<and>
   (k < length xs \<longrightarrow> length (updateWebUrl xs k v) = length xs) \<and>
   (rendered initial_webUrls es \<longrightarrow>
      1 \<le> length (web_run initial_webUrls es) \<and> length (web_run initial_webUrls es) \<le> 5)"
proof -
  have init: "web_inv initial_webUrls"
    by (simp add: web_inv_def initial_webUrls_def)
  have run: "rendered initial_webUrls es \<longrightarrow>
      1 \<le> length (web_run initial_webUrls es) \<and> length (web_run initial_webUrls es) \<le> 5"
    using web_run_inv [OF init, of es] by (simp add: web_inv_def)
  have add: "length (addWebUrlField xs) = (if length xs < 5 then length xs + 1 else length xs)"
    by (simp add: addWebUrlField_def length_spread)
  have upd: "k < length xs \<longrightarrow> length (updateWebUrl xs k v) = length xs"
    by (simp add: updateWebUrl_in_range length_spread)
  show ?thesis
    using run add upd removeWebUrlField_length [of xs k]
    by (simp add: initial_webUrls_def)
qed

theorem webUrls_length_between_1_and_5_witness:
  "Hole \<notin> set [Url ''a'', Url ''b''] \<and> (1::nat) < length [Url ''a'', Url ''b''] \<and>
   rendered initial_webUrls [AddField, UpdateField 1 ''x'', RemoveField 0, AddField] \<and>
   length (removeWebUrlField [Url ''a'', Url ''b''] 1) = 1 \<and>
   length (updateWebUrl [Url ''a'', Url ''b''] 1 ''x'') = 2 \<and>
   1 \<le> length (web_run initial_webUrls [AddField, UpdateField 1 ''x'', RemoveField 0, AddField]) \<and>
   length (web_run initial_webUrls [AddField, UpdateField 1 ''x'', RemoveField 0, AddField]) \<le> 5"
proof -
  have r: "rendered initial_webUrls [AddField, UpdateField 1 ''x'', RemoveField 0, AddField]"
    by (simp add: initial_webUrls_def addWebUrlField_def updateWebUrl_def
        removeWebUrlField_def spread_def upt_rec)
  show ?thesis
    using r webUrls_length_between_1_and_5
      [of "[Url ''a'', Url ''b'']" 1 "''x''" "[AddField, UpdateField 1 ''x'', RemoveField 0, AddField]"]
    by simp
qed

section \<open>Chat page\<close>

text \<open>
  The state of the \<^verbatim>\<open>Chat\<close> component (its \<^verbatim>\<open>useState\<close> cells). A message is a JavaScript
  object; \<open>currentConversation\<close> is \<open>None\<close> for \<^verbatim>\<open>null\<close>. Two fields record the effects
  of the handlers: \<open>toasts\<close> holds the texts given to \<^verbatim>\<open>toast.error\<close>, \<open>sent\<close> the
  arguments of every \<^verbatim>\<open>apiService.sendMessage(message, conversationId, mode)\<close>.
\<close>

record chat_state =
  messages :: "jsobj list"
  currentMessage :: string
  conversations :: jsval
  currentConversation :: "jsobj option"
  loading :: bool
  conversationsLoading :: bool
  chatMode :: string
  toasts :: "string list"
  sent :: "(string \<times> jsval \<times> string) list"

text \<open>\<^verbatim>\<open>useState([])\<close>, \<^verbatim>\<open>useState("")\<close>, \<^verbatim>\<open>useState(null)\<close>, \<^verbatim>\<open>useState(false)\<close>,
  \<^verbatim>\<open>useState(true)\<close>, \<^verbatim>\<open>useState("rag")\<close>.\<close>

definition initial_chat :: chat_state where
  "initial_chat =
     \<lparr>messages = [], currentMessage = [], conversations = JArr [],
      currentConversation = None, loading = False, conversationsLoading = True,
      chatMode = ''rag'', toasts = [], sent = []\<rparr>"

text \<open>The outcome of an awaited API call: the promise rejects, or resolves with the parsed
  body.\<close>

datatype api_result = Rejected | Resolved jsval

text \<open>\<^verbatim>\<open>v.length\<close> of a non-nullish value.\<close>

fun js_length :: "jsval \<Rightarrow> jsval" where
  "js_length (JArr xs) = JNum (of_nat (length xs))"
| "js_length (JStr s) = JNum (of_nat (length s))"
| "js_length (JObj kvs) = own_prop kvs ''length''"
| "js_length v = JUndefined"

text \<open>
  \<^verbatim>\<open>loadConversations\<close>: on success \<^verbatim>\<open>setConversations(data || [])\<close> and
  \<^verbatim>\<open>if (!data || data.length === 0) setChatMode("general")\<close>; on rejection the error toast;
  \<^verbatim>\<open>finally\<close> clears \<open>conversationsLoading\<close>.
\<close>

definition loadConversations :: "chat_state \<Rightarrow> api_result \<Rightarrow> chat_state" where
  "loadConversations s r =
     (case r of
        Rejected \<Rightarrow>
          s\<lparr>toasts := toasts s @ [''Failed to load chat history''],
            conversationsLoading := False\<rparr>
      | Resolved data \<Rightarrow>
          s\<lparr>conversations := js_or data (JArr []),
            chatMode := (if \<not> truthy data \<or> strict_eq (js_length data) (JNum 0)
                         then ''general'' else chatMode s),
            conversationsLoading := False\<rparr>)"

text \<open>The readings of the clock during one \<^verbatim>\<open>sendMessage\<close>: \<^verbatim>\<open>Date.now()\<close> and
  \<^verbatim>\<open>new Date().toISOString()\<close> for the temporary, the user and the assistant message.\<close>

record stamps =
  temp_now :: nat
  temp_iso :: string
  user_now :: nat
  user_iso :: string
  asst_now :: nat
  asst_iso :: string

definition tempMessage :: "stamps \<Rightarrow> string \<Rightarrow> jsobj" where
  "tempMessage clk userMessage =
     [(''id'', JStr (''temp-'' @ dec (temp_now clk))),
      (''role'', JStr ''user''),
      (''content'', JStr userMessage),
      (''created_at'', JStr (temp_iso clk))]"

text \<open>The predicate of \<^verbatim>\<open>prev.filter((msg) => msg.id !== tempMessage.id)\<close>.\<close>

definition not_temp :: "jsobj \<Rightarrow> jsobj \<Rightarrow> bool" where
  "not_temp tmp msg = (\<not> strict_eq (own_prop msg ''id'') (own_prop tmp ''id''))"

text \<open>
  Lines 110 to 120: \<^verbatim>\<open>chartData\<close> starts as \<^verbatim>\<open>null\<close>, becomes \<^verbatim>\<open>response.charts\<close> when
  that is truthy and of type object, and then \<^verbatim>\<open>response.financial_insights.charts\<close> when
  both \<^verbatim>\<open>response.financial_insights\<close> and it are truthy. \<open>None\<close> is the TypeError of
  reading a property of \<^verbatim>\<open>undefined\<close> or \<^verbatim>\<open>null\<close>.
\<close>

definition extract_charts :: "jsval \<Rightarrow> jsval option" where
  "extract_charts response =
     (case get response ''charts'' of
        None \<Rightarrow> None
      | Some charts \<Rightarrow>
          let chartData = (if truthy charts \<and> typeof_object charts then charts else JNull) in
          (case get response ''financial_insights'' of
             None \<Rightarrow> None
           | Some fi \<Rightarrow>
               if truthy fi then
                 (case get fi ''charts'' of
                    None \<Rightarrow> None
                  | Some fc \<Rightarrow> Some (if truthy fc then fc else chartData))
               else Some chartData))"

text \<open>Property read on the (non-nullish) response, for the lines after the chart
  extraction has already read from it.\<close>

definition field :: "jsval \<Rightarrow> string \<Rightarrow> jsval" where
  "field v k = (case get v k of None \<Rightarrow> JUndefined | Some x \<Rightarrow> x)"

definition userEntry :: "stamps \<Rightarrow> string \<Rightarrow> jsobj" where
  "userEntry clk userMessage =
     [(''id'', JStr (''user-'' @ dec (user_now clk))),
      (''role'', JStr ''user''),
      (''content'', JStr userMessage),
      (''created_at'', JStr (user_iso clk))]"

definition assistantEntry :: "stamps \<Rightarrow> jsval \<Rightarrow> jsval \<Rightarrow> jsobj" where
  "assistantEntry clk response chartData =
     [(''id'', JStr (''assistant-'' @ dec (asst_now clk))),
      (''role'', JStr ''assistant''),
      (''content'', js_or (field response ''message'') (JStr ''No response from assistant.'')),
      (''sources'', js_or (field response ''sources'') (JArr [])),
      (''charts'', chartData),
      (''created_at'', JStr (asst_iso clk)),
      (''context_used'', js_or (field response ''context_used'') (JBool False))]"

text \<open>\<^verbatim>\<open>userMessage.substring(0, 50) + (userMessage.length > 50 ? "..." : "")\<close>\<close>

definition conversation_title :: "string \<Rightarrow> string" where
  "conversation_title userMessage =
     take 50 userMessage @ (if length userMessage > 50 then ''...'' else [])"

text \<open>\<^verbatim>\<open>!currentConversation || currentConversation.id !== response.conversation_id\<close>\<close>

definition starts_conversation :: "jsobj option \<Rightarrow> jsval \<Rightarrow> bool" where
  "starts_conversation cur response =
     (case cur of
        None \<Rightarrow> True
      | Some c \<Rightarrow> \<not> strict_eq (own_prop c ''id'') (field response ''conversation_id''))"

text \<open>
  The \<^verbatim>\<open>try\<close> block of \<^verbatim>\<open>sendMessage\<close> after the request has been issued. The result is the
  state reached and whether an exception left the block: the rejection of the request, or
  the TypeError of reading \<^verbatim>\<open>response.charts\<close> from a body that is \<^verbatim>\<open>null\<close> or absent
  (by then the temporary message is already filtered out). \<open>convs\<close> is the outcome of
  the \<^verbatim>\<open>getConversations\<close> request that \<^verbatim>\<open>loadConversations\<close> awaits.
\<close>

definition send_try ::
  "chat_state \<Rightarrow> jsobj option \<Rightarrow> stamps \<Rightarrow> string \<Rightarrow> api_result \<Rightarrow> api_result \<Rightarrow> chat_state \<times> bool"
where
  "send_try s cur clk userMessage reply convs =
     (case reply of
        Rejected \<Rightarrow> (s, True)
      | Resolved response \<Rightarrow>
          let s2 = s\<lparr>messages := filter (not_temp (tempMessage clk userMessage)) (messages s)\<rparr> in
          (case extract_charts response of
             None \<Rightarrow> (s2, True)
           | Some chartData \<Rightarrow>
               let newMessages = [userEntry clk userMessage, assistantEntry clk response chartData];
                   s3 = s2\<lparr>messages := messages s2 @ newMessages\<rparr>
               in if starts_conversation cur response then
                    (loadConversations
                       (s3\<lparr>currentConversation :=
                             Some [(''id'', field response ''conversation_id''),
                                   (''title'', JStr (conversation_title userMessage))]\<rparr>)
                       convs, False)
                  else (s3, False)))"

text \<open>
  \<^verbatim>\<open>sendMessage\<close>: the guard \<^verbatim>\<open>if (!currentMessage.trim() || loading) return\<close>, the
  optimistic temporary message, the request, the \<^verbatim>\<open>try\<close> block, the \<^verbatim>\<open>catch\<close> (error
  toast and removal of the temporary message) and the \<^verbatim>\<open>finally\<close>. The handler reads
  \<open>currentConversation\<close> and \<open>chatMode\<close> as they were when it was invoked; no other event
  of the page is interleaved with the turn.
\<close>

definition sendMessage :: "chat_state \<Rightarrow> stamps \<Rightarrow> api_result \<Rightarrow> api_result \<Rightarrow> chat_state" where
  "sendMessage s clk reply convs =
     (if trim (currentMessage s) = [] \<or> loading s then s
      else
        let userMessage = trim (currentMessage s);
            tmp = tempMessage clk userMessage;
            cur = currentConversation s;
            conversationId = (case cur of None \<Rightarrow> JUndefined | Some c \<Rightarrow> own_prop c ''id'');
            s1 = s\<lparr>currentMessage := [], loading := True,
                   messages := messages s @ [tmp],
                   sent := sent s @ [(userMessage, conversationId, chatMode s)]\<rparr>;
            (s4, thrown) = send_try s1 cur clk userMessage reply convs;
            s5 = (if thrown
                  then s4\<lparr>toasts := toasts s4 @ [''Failed to send message''],
                          messages := filter (not_temp tmp) (messages s4)\<rparr>
                  else s4)
        in s5\<lparr>loading := False\<rparr>)"

text \<open>
  Rendering of a message: the chart block is shown under
  \<^verbatim>\<open>m.charts && typeof m.charts === 'object' && Object.keys(m.charts).length > 0\<close>, the
  knowledge-base badge under \<^verbatim>\<open>m.role === "assistant" && m.context_used\<close>.
\<close>

fun object_keys :: "jsval \<Rightarrow> nat" where
  "object_keys (JObj kvs) = length kvs"
| "object_keys (JArr xs) = length xs"
| "object_keys (JStr s) = length s"
| "object_keys v = 0"

definition charts_displayed :: "jsobj \<Rightarrow> bool" where
  "charts_displayed m =
     (truthy (own_prop m ''charts'') \<and> typeof_object (own_prop m ''charts'')
      \<and> object_keys (own_prop m ''charts'') > 0)"

definition badge_displayed :: "jsobj \<Rightarrow> bool" where
  "badge_displayed m =
     (strict_eq (own_prop m ''role'') (JStr ''assistant'') \<and> truthy (own_prop m ''context_used''))"

text \<open>A value that is an object or an array (\<^verbatim>\<open>typeof\<close> gives \<^verbatim>\<open>'object'\<close> and it is not
  \<^verbatim>\<open>null\<close>), and a value that is \<^verbatim>\<open>undefined\<close> or \<^verbatim>\<open>null\<close>.\<close>

fun is_object :: "jsval \<Rightarrow> bool" where
  "is_object (JObj kvs) = True"
| "is_object (JArr xs) = True"
| "is_object v = False"

definition nullish :: "jsval \<Rightarrow> bool" where
  "nullish v = (v = JUndefined \<or> v = JNull)"

text \<open>
  The chart payload as a fixed precedence: \<^verbatim>\<open>response.financial_insights.charts\<close> when it
  exists (the test of the page, and of its comment ``check if charts exist in
  financial\_insights'', is truthiness), otherwise \<^verbatim>\<open>response.charts\<close> when that is an
  object, otherwise \<^verbatim>\<open>null\<close>.
\<close>

definition chart_payload :: "jsval \<Rightarrow> jsval" where
  "chart_payload response =
     (if truthy (field response ''financial_insights'')
         \<and> truthy (field (field response ''financial_insights'') ''charts'')
      then field (field response ''financial_insights'') ''charts''
      else if is_object (field response ''charts'') then field response ''charts''
      else JNull)"

text \<open>Clock readings and inputs used to run the handlers on concrete turns.\<close>

definition clk0 :: stamps where
  "clk0 = \<lparr>temp_now = 1000, temp_iso = ''t0'', user_now = 1200, user_iso = ''t1'',
            asst_now = 1200, asst_iso = ''t1''\<rparr>"

definition long_message :: string where
  "long_message = ''  Compare the revenue of the first quarter with the second  ''"

definition charts_response :: jsval where
  "charts_response =
     JObj [(''message'', JStr ''Here is the chart.''),
           (''conversation_id'', JNum 3),
           (''charts'', JObj [(''old'', JObj [(''type'', JStr ''bar'')])]),
           (''financial_insights'',
              JObj [(''charts'', JObj [(''revenue'', JObj [(''type'', JStr ''line'')])])])]"

subsection \<open>Facts about one turn\<close>

lemma strict_eq_JStr: "strict_eq v (JStr t) = (v = JStr t)"
  by (cases v) auto

lemma tempMessage_id: "own_prop (tempMessage clk um) ''id'' = JStr (''temp-'' @ dec (temp_now clk))"
  by (simp add: tempMessage_def own_prop_def)

lemma not_temp_iff:
  "not_temp (tempMessage clk um) m = (own_prop m ''id'' \<noteq> JStr (''temp-'' @ dec (temp_now clk)))"
  by (simp add: not_temp_def tempMessage_id strict_eq_JStr)

lemma not_temp_fun:
  "not_temp (tempMessage clk um) = (\<lambda>m. own_prop m ''id'' \<noteq> JStr (''temp-'' @ dec (temp_now clk)))"
  by (rule ext) (simp add: not_temp_iff)

lemma not_temp_self: "\<not> not_temp (tempMessage clk um) (tempMessage clk um)"
  by (simp add: not_temp_iff tempMessage_id)

lemma filter_not_temp_snoc:
  "filter (not_temp (tempMessage clk um)) (ms @ [tempMessage clk um])
     = filter (not_temp (tempMessage clk um)) ms"
  by (simp add: not_temp_iff tempMessage_id)

lemma get_None_iff: "get v k = None \<longleftrightarrow> nullish v"
  by (cases v) (simp_all add: nullish_def)

lemma truthy_get: "truthy v \<Longrightarrow> get v k = Some (field v k)"
  by (cases v) (simp_all add: field_def)

lemma not_nullish_get: "\<not> nullish v \<Longrightarrow> get v k = Some (field v k)"
  by (cases v) (simp_all add: field_def nullish_def)

lemma typeof_object_truthy: "(truthy v \<and> typeof_object v) = is_object v"
  by (cases v) simp_all

lemma extract_charts_nullish: "nullish response \<Longrightarrow> extract_charts response = None"
  by (auto simp: extract_charts_def nullish_def)

lemma extract_charts_value:
  assumes "\<not> nullish response"
  shows "extract_charts response =
     Some (if truthy (field response ''financial_insights'')
              \<and> truthy (field (field response ''financial_insights'') ''charts'')
           then field (field response ''financial_insights'') ''charts''
           else if is_object (field response ''charts'') then field response ''charts''
           else JNull)"
  using assms
  by (simp add: extract_charts_def not_nullish_get truthy_get typeof_object_truthy Let_def)

lemma loadConversations_messages: "messages (loadConversations s r) = messages s"
  by (cases r) (simp_all add: loadConversations_def)

lemma loadConversations_currentConversation:
  "currentConversation (loadConversations s r) = currentConversation s"
  by (cases r) (simp_all add: loadConversations_def)

lemma loadConversations_toasts_loading:
  "loading (loadConversations s r) = loading s"
  by (cases r) (simp_all add: loadConversations_def)

lemma sendMessage_rejected:
  assumes "trim (currentMessage s) \<noteq> []" and "\<not> loading s"
  shows "sendMessage s clk Rejected convs =
     s\<lparr>currentMessage := [], loading := False,
       messages := filter (not_temp (tempMessage clk (trim (currentMessage s)))) (messages s),
       sent := sent s @ [(trim (currentMessage s),
                 (case currentConversation s of None \<Rightarrow> JUndefined | Some c \<Rightarrow> own_prop c ''id''),
                 chatMode s)],
       toasts := toasts s @ [''Failed to send message'']\<rparr>"
  using assms
  by (simp add: sendMessage_def send_try_def Let_def not_temp_self)

lemma sendMessage_resolved_messages:
  assumes "trim (currentMessage s) \<noteq> []" and "\<not> loading s" and "extract_charts response = Some cd"
  shows "messages (sendMessage s clk (Resolved response) convs) =
     filter (not_temp (tempMessage clk (trim (currentMessage s)))) (messages s)
       @ [userEntry clk (trim (currentMessage s)), assistantEntry clk response cd]"
  using assms
  by (simp add: sendMessage_def send_try_def Let_def not_temp_self loadConversations_messages)

lemma sendMessage_resolved_conversation:
  assumes "trim (currentMessage s) \<noteq> []" and "\<not> loading s" and "extract_charts response = Some cd"
  shows "currentConversation (sendMessage s clk (Resolved response) convs) =
     (if starts_conversation (currentConversation s) response
      then Some [(''id'', field response ''conversation_id''),
                 (''title'', JStr (conversation_title (trim (currentMessage s))))]
      else currentConversation s)"
  using assms
  by (simp add: sendMessage_def send_try_def Let_def loadConversations_currentConversation)

text \<open>A body that is \<^verbatim>\<open>null\<close> ends the turn like a rejected request: the TypeError of
  \<^verbatim>\<open>response.charts\<close> is caught by the same \<^verbatim>\<open>catch\<close>.\<close>

lemma sendMessage_null_body:
  assumes "trim (currentMessage s) \<noteq> []" and "\<not> loading s"
  shows "sendMessage s clk (Resolved JNull) convs = sendMessage s clk Rejected convs"
  using assms
  by (simp add: sendMessage_def send_try_def Let_def not_temp_self extract_charts_def)

text \<open>The page's own switch to general mode: \<^verbatim>\<open>loadConversations\<close> selects it when the
  user has no conversation yet (the request gives nothing or an empty array).\<close>

lemma loadConversations_without_history:
  "\<not> truthy data \<or> data = JArr [] \<Longrightarrow> chatMode (loadConversations s (Resolved data)) = ''general''"
  by (auto simp: loadConversations_def)

lemma trim_hello: "trim ''hello'' = ''hello''"
  by (simp add: trim_def is_space_def)

text \<open>
  Claim C1 as written fails when the request is rejected: from the initial page with
  ``hello'' typed, the turn ends with an empty message list, so the user's message is not
  kept and no assistant message is produced.
\<close>

theorem sendMessage_failure_drops_turn_counterexample:
  "messages (sendMessage (initial_chat\<lparr>currentMessage := ''hello''\<rparr>) clk0 Rejected (Resolved (JArr []))) = []"
  by (simp add: sendMessage_rejected trim_hello initial_chat_def)

text \<open>
  Claim C1, amended. When the request of a turn is rejected, the temporary user message
  is removed again: the message list is the list from before the turn without entries
  carrying the temporary id, so no user or assistant message is added. The failure is
  signalled by the error toast ``Failed to send message'', the input is cleared, loading
  is reset and the current conversation is unchanged.
\<close>

theorem sendMessage_failure_rolls_back:
  assumes "trim (currentMessage s) \<noteq> []" and "\<not> loading s"
  shows "messages (sendMessage s clk Rejected convs)
           = filter (\<lambda>m. own_prop m ''id'' \<noteq> JStr (''temp-'' @ dec (temp_now clk))) (messages s)
       \<and> toasts (sendMessage s clk Rejected convs) = toasts s @ [''Failed to send message'']
       \<and> \<not> loading (sendMessage s clk Rejected convs)
       \<and> currentMessage (sendMessage s clk Rejected convs) = []
       \<and> currentConversation (sendMessage s clk Rejected convs) = currentConversation s"
proof -
  note turn = sendMessage_rejected [OF assms, of clk convs]
  have kept: "messages (sendMessage s clk Rejected convs)
                = filter (not_temp (tempMessage clk (trim (currentMessage s)))) (messages s)"
    by (simp add: turn)
  have shown: "toasts (sendMessage s clk Rejected convs) = toasts s @ [''Failed to send message'']"
    by (simp add: turn)
  have rest: "\<not> loading (sendMessage s clk Rejected convs)"
    "currentMessage (sendMessage s clk Rejected convs) = []"
    "currentConversation (sendMessage s clk Rejected convs) = currentConversation s"
    by (simp_all add: turn)
  from kept shown rest show ?thesis
    by (simp add: not_temp_fun)
qed

theorem sendMessage_failure_rolls_back_witness:
  "trim (currentMessage (initial_chat\<lparr>currentMessage := ''hello'',
       messages := [[(''id'', JNum 7), (''role'', JStr ''user''), (''content'', JStr ''earlier'')]]\<rparr>)) \<noteq> []
   \<and> \<not> loading (initial_chat\<lparr>currentMessage := ''hello'',
       messages := [[(''id'', JNum 7), (''role'', JStr ''user''), (''content'', JStr ''earlier'')]]\<rparr>)
   \<and> messages (sendMessage (initial_chat\<lparr>currentMessage := ''hello'',
       messages := [[(''id'', JNum 7), (''role'', JStr ''user''), (''content'', JStr ''earlier'')]]\<rparr>)
         clk0 Rejected (Resolved (JArr [])))
      = [[(''id'', JNum 7), (''role'', JStr ''user''), (''content'', JStr ''earlier'')]]
   \<and> toasts (sendMessage (initial_chat\<lparr>currentMessage := ''hello'',
       messages := [[(''id'', JNum 7), (''role'', JStr ''user''), (''content'', JStr ''earlier'')]]\<rparr>)
         clk0 Rejected (Resolved (JArr []))) = [''Failed to send message'']"
  using sendMessage_failure_rolls_back
    [of "initial_chat\<lparr>currentMessage := ''hello'',
       messages := [[(''id'', JNum 7), (''role'', JStr ''user''), (''content'', JStr ''earlier'')]]\<rparr>"
      clk0 "Resolved (JArr [])"]
  by (simp add: trim_hello initial_chat_def own_prop_def)

text \<open>
  Claim C5. When a sent message starts a new conversation (there was no current
  conversation, or the response carries another conversation id), the current
  conversation gets the response's id and a title that is the first 50 characters of the
  trimmed message, followed by ``...'' exactly when the trimmed message is longer than 50
  characters.
\<close>

theorem new_conversation_title_truncated:
  assumes "trim (currentMessage s) \<noteq> []" and "\<not> loading s" and "\<not> nullish response"
    and "starts_conversation (currentConversation s) response"
  shows "currentConversation (sendMessage s clk (Resolved response) convs)
           = Some [(''id'', field response ''conversation_id''),
                   (''title'', JStr (take 50 (trim (currentMessage s))
                        @ (if length (trim (currentMessage s)) > 50 then ''...'' else [])))]"
  using assms sendMessage_resolved_conversation [OF assms(1,2) extract_charts_value [OF assms(3)]]
  by (simp add: conversation_title_def)

theorem new_conversation_title_truncated_witness:
  "trim (currentMessage (initial_chat\<lparr>currentMessage := long_message\<rparr>)) \<noteq> []
   \<and> \<not> loading (initial_chat\<lparr>currentMessage := long_message\<rparr>)
   \<and> \<not> nullish charts_response
   \<and> starts_conversation (currentConversation (initial_chat\<lparr>currentMessage := long_message\<rparr>))
         charts_response
   \<and> currentConversation
         (sendMessage (initial_chat\<lparr>currentMessage := long_message\<rparr>) clk0
            (Resolved charts_response) (Resolved (JArr [])))
       = Some [(''id'', JNum 3),
               (''title'', JStr ''Compare the revenue of the first quarter with the ...'')]"
proof -
  have t: "trim long_message = ''Compare the revenue of the first quarter with the second''"
    by (simp add: trim_def is_space_def long_message_def)
  have n: "\<not> nullish charts_response"
    by (simp add: nullish_def charts_response_def)
  have f: "field charts_response ''conversation_id'' = JNum 3"
    by (simp add: field_def charts_response_def own_prop_def)
  show ?thesis
    using n new_conversation_title_truncated
      [of "initial_chat\<lparr>currentMessage := long_message\<rparr>" charts_response clk0
          "Resolved (JArr [])"]
    by (simp add: t f initial_chat_def starts_conversation_def)
qed

text \<open>
  Claim C6. For every response the turn renders, the charts of the appended assistant
  message are the payload chosen by the precedence \<open>chart_payload\<close>:
  \<^verbatim>\<open>response.financial_insights.charts\<close> when it exists, otherwise \<^verbatim>\<open>response.charts\<close> when
  that is an object, otherwise \<^verbatim>\<open>null\<close>; and the chart block of that message is displayed
  exactly when the payload is an object with at least one key.
\<close>

theorem chart_payload_precedence:
  assumes "trim (currentMessage s) \<noteq> []" and "\<not> loading s" and "\<not> nullish response"
  shows "last (messages (sendMessage s clk (Resolved response) convs))
           = assistantEntry clk response (chart_payload response)
       \<and> own_prop (last (messages (sendMessage s clk (Resolved response) convs))) ''charts''
           = chart_payload response
       \<and> charts_displayed (last (messages (sendMessage s clk (Resolved response) convs)))
           = (is_object (chart_payload response) \<and> object_keys (chart_payload response) > 0)"
proof -
  have e: "extract_charts response = Some (chart_payload response)"
    using extract_charts_value [OF assms(3)] by (simp add: chart_payload_def)
  have c: "own_prop (assistantEntry clk response cd) ''charts'' = cd" for cd
    by (simp add: assistantEntry_def own_prop_def)
  show ?thesis
    using sendMessage_resolved_messages [OF assms(1,2) e, of clk convs]
    by (simp add: c charts_displayed_def typeof_object_truthy [symmetric] conj_ac)
qed

theorem chart_payload_precedence_witness:
  "trim (currentMessage (initial_chat\<lparr>currentMessage := long_message\<rparr>)) \<noteq> []
   \<and> \<not> loading (initial_chat\<lparr>currentMessage := long_message\<rparr>)
   \<and> \<not> nullish charts_response
   \<and> own_prop (last (messages
         (sendMessage (initial_chat\<lparr>currentMessage := long_message\<rparr>) clk0
            (Resolved charts_response) (Resolved (JArr []))))) ''charts''
       = JObj [(''revenue'', JObj [(''type'', JStr ''line'')])]
   \<and> charts_displayed (last (messages
         (sendMessage (initial_chat\<lparr>currentMessage := long_message\<rparr>) clk0
            (Resolved charts_response) (Resolved (JArr [])))))"
proof -
  have t: "trim (currentMessage (initial_chat\<lparr>currentMessage := long_message\<rparr>)) \<noteq> []"
    by (simp add: trim_def is_space_def long_message_def)
  have l: "\<not> loading (initial_chat\<lparr>currentMessage := long_message\<rparr>)"
    by (simp add: initial_chat_def)
  have n: "\<not> nullish charts_response"
    by (simp add: nullish_def charts_response_def)
  have p: "chart_payload charts_response = JObj [(''revenue'', JObj [(''type'', JStr ''line'')])]"
    by (simp add: chart_payload_def field_def charts_response_def own_prop_def)
  show ?thesis
    using t l n
      chart_payload_precedence [OF t l n, of clk0 "Resolved (JArr [])", THEN conjunct2]
    by (simp add: p)
qed

section \<open>Knowledge Base page: submitting sources\<close>

text \<open>
  The requests the page sends through \<^verbatim>\<open>apiService\<close>, in the order they are issued. The
  first four are the ingestion endpoints (\<^verbatim>\<open>/documents/process-google-drive-folder\<close>,
  \<^verbatim>\<open>/documents/process-google-drive-file\<close>, \<^verbatim>\<open>/documents/process-pdf-url\<close>,
  \<^verbatim>\<open>/documents/process-multiple-sources\<close>); the last two are the reads of
  \<^verbatim>\<open>loadKnowledgeBase\<close>.
\<close>

record source =
  url :: string
  type :: string

datatype api_call =
    ProcessGoogleDriveFolder string
  | ProcessGoogleDriveFile string
  | ProcessPdfUrl string
  | ProcessMultipleSources "source list"
  | GetDocuments
  | GetDocumentStats

fun is_ingestion :: "api_call \<Rightarrow> bool" where
  "is_ingestion GetDocuments = False"
| "is_ingestion GetDocumentStats = False"
| "is_ingestion c = True"

text \<open>An awaited request fails with the text shown in the toast
  (\<^verbatim>\<open>error.response?.data?.detail || error.message\<close>) or succeeds with a body.\<close>

datatype outcome = Failure string | Success jsval

datatype toast = ToastLoading string | ToastSuccess string | ToastError string

record kb_state =
  documents :: jsval
  stats :: jsval
  kb_loading :: bool
  isProcessing :: bool
  fileUrl :: string
  webUrls :: "slot list"
  calls :: "api_call list"
  kb_toasts :: "toast list"

text \<open>
  \<^verbatim>\<open>loadKnowledgeBase\<close>: both reads are issued by \<^verbatim>\<open>Promise.all\<close>; when both succeed the
  documents and the stats are stored, otherwise the error toast is shown.
\<close>

definition loadKnowledgeBase :: "kb_state \<Rightarrow> outcome \<Rightarrow> outcome \<Rightarrow> kb_state" where
  "loadKnowledgeBase s docs sts =
     (let s1 = s\<lparr>kb_loading := True, calls := calls s @ [GetDocuments, GetDocumentStats]\<rparr> in
      case (docs, sts) of
        (Success d, Success t) \<Rightarrow> s1\<lparr>documents := d, stats := t, kb_loading := False\<rparr>
      | _ \<Rightarrow> s1\<lparr>kb_toasts := kb_toasts s1 @ [ToastError ''Failed to load knowledge base''],
                 kb_loading := False\<rparr>)"

text \<open>The ordered substring tests of \<^verbatim>\<open>handleFileUrlSubmit\<close> and the request and toasts of
  each branch.\<close>

definition is_drive_folder :: "string \<Rightarrow> bool" where
  "is_drive_folder u = js_includes u ''drive.google.com/drive/folders/''"

definition is_drive_file :: "string \<Rightarrow> bool" where
  "is_drive_file u =
     (js_includes u ''drive.google.com/file/'' \<or> js_includes u ''drive.google.com/uc?id='')"

definition file_url_call :: "string \<Rightarrow> api_call" where
  "file_url_call u =
     (if is_drive_folder u then ProcessGoogleDriveFolder u
      else if is_drive_file u then ProcessGoogleDriveFile u
      else ProcessPdfUrl u)"

definition file_url_loading :: "string \<Rightarrow> toast" where
  "file_url_loading u =
     (if is_drive_folder u then ToastLoading ''Processing Google Drive folder (all file types)...''
      else if is_drive_file u then ToastLoading ''Processing Google Drive file...''
      else ToastLoading ''Processing file...'')"

definition file_url_success :: "string \<Rightarrow> toast" where
  "file_url_success u =
     (if is_drive_folder u then ToastSuccess ''Google Drive folder processed successfully!''
      else ToastSuccess ''File processed successfully!'')"

text \<open>
  \<^verbatim>\<open>handleFileUrlSubmit\<close>: \<^verbatim>\<open>if (!fileUrl.trim()) return\<close>; then one request chosen by the
  tests on the untrimmed \<open>fileUrl\<close>; on success the field is cleared and the knowledge
  base reloaded; on failure the error toast; \<^verbatim>\<open>finally\<close> clears \<open>isProcessing\<close>.
\<close>

definition handleFileUrlSubmit :: "kb_state \<Rightarrow> outcome \<Rightarrow> outcome \<Rightarrow> outcome \<Rightarrow> kb_state" where
  "handleFileUrlSubmit s res docs sts =
     (if trim (fileUrl s) = [] then s
      else
        let u = fileUrl s;
            s1 = s\<lparr>isProcessing := True,
                   kb_toasts := kb_toasts s @ [file_url_loading u],
                   calls := calls s @ [file_url_call u]\<rparr>;
            s2 = (case res of
                    Success body \<Rightarrow>
                      loadKnowledgeBase
                        (s1\<lparr>kb_toasts := kb_toasts s1 @ [file_url_success u], fileUrl := []\<rparr>)
                        docs sts
                  | Failure detail \<Rightarrow>
                      s1\<lparr>kb_toasts := kb_toasts s1 @ [ToastError (''Processing failed: '' @ detail)]\<rparr>)
        in s2\<lparr>isProcessing := False\<rparr>)"

text \<open>
  \<^verbatim>\<open>webUrls.filter((url) => url.trim())\<close>: holes are not visited, a string is kept when
  its trimmed form is non-empty, and \<^verbatim>\<open>undefined.trim()\<close> is a TypeError (\<open>None\<close>).
\<close>

fun validUrls :: "slot list \<Rightarrow> string list option" where
  "validUrls [] = Some []"
| "validUrls (Hole # xs) = validUrls xs"
| "validUrls (Undef # xs) = None"
| "validUrls (Url u # xs) =
     (case validUrls xs of
        None \<Rightarrow> None
      | Some vs \<Rightarrow> Some (if trim u \<noteq> [] then u # vs else vs))"

text \<open>
  \<^verbatim>\<open>handleWebUrlsSubmit\<close>. The filter runs before the \<^verbatim>\<open>try\<close>, so its TypeError leaves the
  handler (\<open>None\<close>). With no valid URL the handler returns at once. Otherwise one
  \<^verbatim>\<open>processMultipleSources({ sources })\<close> request carries
  \<^verbatim>\<open>validUrls.map((url) => ({ url: url.trim(), type: "web_url" }))\<close>.
\<close>

definition handleWebUrlsSubmit ::
  "kb_state \<Rightarrow> outcome \<Rightarrow> outcome \<Rightarrow> outcome \<Rightarrow> kb_state option" where
  "handleWebUrlsSubmit s res docs sts =
     (case validUrls (webUrls s) of
        None \<Rightarrow> None
      | Some vs \<Rightarrow>
          if length vs = 0 then Some s
          else
            let sources = map (\<lambda>u. \<lparr>url = trim u, type = ''web_url''\<rparr>) vs;
                s1 = s\<lparr>isProcessing := True, calls := calls s @ [ProcessMultipleSources sources]\<rparr>;
                s2 = (case res of
                        Success body \<Rightarrow>
                          loadKnowledgeBase
                            (s1\<lparr>kb_toasts := kb_toasts s1 @ [ToastSuccess ''Web URLs processed!''],
                                webUrls := [Url []]\<rparr>)
                            docs sts
                      | Failure detail \<Rightarrow>
                          s1\<lparr>kb_toasts := kb_toasts s1
                                @ [ToastError (''Web URL processing failed: '' @ detail)]\<rparr>)
            in Some (s2\<lparr>isProcessing := False\<rparr>))"

section \<open>Backend: document registry, vector index, ingestion and chat orchestration\<close>

text \<open>
  The pages above call a backend (\<^verbatim>\<open>backend/RAG_chatbot\<close>) whose code is not part of the
  sources at hand. Its part in the behaviour of the system is stated over the following model, which
  follows sections 3 and 4 of the specification.
\<close>

text \<open>Modelled from the spec: the processing status of a Document (section 3),
  \<open>pending \<rightarrow> processing \<rightarrow> completed | failed\<close>; the backend's document model is missing.\<close>

datatype doc_status = Pending | Processing | Completed | Failed

text \<open>Modelled from the spec: the Document record of section 3 (identifier, origin type,
  source reference, processing status, chunk count, failure reason); the backend's document
  model is missing.\<close>

record document =
  doc_id :: nat
  origin_type :: string
  origin_ref :: string
  status :: doc_status
  chunk_count :: nat
  failure_reason :: "string option"

text \<open>Modelled from the spec: the Chunk record of section 3 (owning document id, sequence
  index within the document, text span); the backend's chunk model is missing.\<close>

record chunk =
  chunk_doc :: nat
  chunk_seq :: nat
  chunk_text :: string

text \<open>Modelled from the spec: the state owned by the Document Registry (4.4) and the Vector
  Index (4.5), with the next free document identifier; the backend's storage is missing.\<close>

record backend =
  registry :: "document list"
  vindex :: "chunk list"
  next_id :: nat

definition empty_backend :: backend where
  "empty_backend = \<lparr>registry = [], vindex = [], next_id = 0\<rparr>"

text \<open>Modelled from the spec: the external capabilities of the ingestion pipeline, which
  are missing. \<open>normalize\<close> is the Source Normalizer (4.1): the raw content of a source, or
  \<open>None\<close> for an unreachable URL, an unsupported type or an oversized payload. \<open>extract_text\<close>
  is the Content Extractor (4.2) by origin type, \<open>None\<close> when extraction fails.
  \<open>chunker\<close> is the deterministic Chunker (4.3).\<close>

record pipeline =
  normalize :: "source \<Rightarrow> string option"
  extract_text :: "string \<Rightarrow> string \<Rightarrow> string option"
  chunker :: "string \<Rightarrow> string list"

text \<open>Modelled from the spec: Document Registry \<open>create\<close> (4.4), which registers a pending
  document under a fresh identifier; the backend's registry is missing.\<close>

definition create_document :: "backend \<Rightarrow> source \<Rightarrow> backend" where
  "create_document b src =
     b\<lparr>registry := registry b @
          [\<lparr>doc_id = next_id b, origin_type = type src, origin_ref = url src,
            status = Pending, chunk_count = 0, failure_reason = None\<rparr>],
       next_id := Suc (next_id b)\<rparr>"

text \<open>Modelled from the spec: Document Registry \<open>update status/chunk_count\<close> (4.4) of the
  document with the given identifier; the backend's registry is missing.\<close>

definition update_document ::
  "backend \<Rightarrow> nat \<Rightarrow> doc_status \<Rightarrow> nat \<Rightarrow> string option \<Rightarrow> backend" where
  "update_document b d st n why =
     b\<lparr>registry :=
          map (\<lambda>x. if doc_id x = d
                    then x\<lparr>status := st, chunk_count := n, failure_reason := why\<rparr> else x)
              (registry b)\<rparr>"

text \<open>Modelled from the spec: Vector Index \<open>upsert\<close> (4.5) of the passages of one document,
  with sequence indices contiguous from 0; the backend's index is missing.\<close>

definition upsert_chunks :: "backend \<Rightarrow> nat \<Rightarrow> string list \<Rightarrow> backend" where
  "upsert_chunks b d passages =
     b\<lparr>vindex := vindex b @
          map (\<lambda>(i, t). \<lparr>chunk_doc = d, chunk_seq = i, chunk_text = t\<rparr>)
              (zip [0 ..< length passages] passages)\<rparr>"

text \<open>Modelled from the spec: Vector Index \<open>delete_by_document\<close> (4.5); the backend's index
  is missing.\<close>

definition delete_by_document :: "backend \<Rightarrow> nat \<Rightarrow> backend" where
  "delete_by_document b d = b\<lparr>vindex := filter (\<lambda>c. chunk_doc c \<noteq> d) (vindex b)\<rparr>"

text \<open>Modelled from the spec: Document Registry \<open>delete\<close> (4.4), which removes all chunks of
  the document from the Vector Index together with the registry entry; the backend's
  registry is missing.\<close>

definition delete_document :: "backend \<Rightarrow> nat \<Rightarrow> backend" where
  "delete_document b d =
     (let b1 = delete_by_document b d
      in b1\<lparr>registry := filter (\<lambda>x. doc_id x \<noteq> d) (registry b1)\<rparr>)"

text \<open>Modelled from the spec: the single-source ingestion path (4.1 to 4.4), which is
  missing. A source that cannot be normalized gives a failed document without extraction;
  a failed extraction gives a failed document; an extraction that yields no passage (zero
  usable text) gives a failed document; otherwise the passages are indexed and the
  document is completed with their number as chunk count.\<close>

definition ingest :: "pipeline \<Rightarrow> backend \<Rightarrow> source \<Rightarrow> backend" where
  "ingest p b src =
     (let d = next_id b;
          b1 = create_document b src
      in case normalize p src of
           None \<Rightarrow> update_document b1 d Failed 0 (Some ''source could not be fetched'')
         | Some raw \<Rightarrow>
             let b2 = update_document b1 d Processing 0 None
             in case extract_text p (type src) raw of
                  None \<Rightarrow> update_document b2 d Failed 0 (Some ''extraction failed'')
                | Some txt \<Rightarrow>
                    let passages = chunker p txt
                    in if passages = []
                       then update_document b2 d Failed 0 (Some ''no usable text'')
                       else update_document (upsert_chunks b2 d passages) d
                              Completed (length passages) None)"

text \<open>Modelled from the spec: the batch submission of 4.1, ``a thin fan-out over the
  single-source path''; the backend's \<^verbatim>\<open>process-multiple-sources\<close> endpoint is missing.\<close>

definition process_multiple_sources :: "pipeline \<Rightarrow> backend \<Rightarrow> source list \<Rightarrow> backend" where
  "process_multiple_sources p b srcs = foldl (ingest p) b srcs"

text \<open>Modelled from the spec: the status the single-source path gives a source taken on its
  own (completed or failed); the backend's ingestion code is missing.\<close>

definition single_status :: "pipeline \<Rightarrow> source \<Rightarrow> doc_status" where
  "single_status p src =
     (case normalize p src of
        None \<Rightarrow> Failed
      | Some raw \<Rightarrow>
          (case extract_text p (type src) raw of
             None \<Rightarrow> Failed
           | Some txt \<Rightarrow> if chunker p txt = [] then Failed else Completed))"

text \<open>Modelled from the spec: the requests that change the registry and the index (ingest
  one source, ingest a batch, delete a document) and their effect; the backend's request
  handlers are missing.\<close>

datatype backend_event = Ingest source | IngestBatch "source list" | DeleteDocument nat

fun backend_step :: "pipeline \<Rightarrow> backend \<Rightarrow> backend_event \<Rightarrow> backend" where
  "backend_step p b (Ingest src) = ingest p b src"
| "backend_step p b (IngestBatch srcs) = process_multiple_sources p b srcs"
| "backend_step p b (DeleteDocument d) = delete_document b d"

definition backend_run :: "pipeline \<Rightarrow> backend_event list \<Rightarrow> backend" where
  "backend_run p es = foldl (backend_step p) empty_backend es"

text \<open>The invariant of section 3 on one registry: a completed document has at least one
  chunk.\<close>

definition completed_have_chunks :: "backend \<Rightarrow> bool" where
  "completed_have_chunks b =
     list_all (\<lambda>x. status x \<noteq> Completed \<or> chunk_count x \<ge> 1) (registry b)"

definition chunks_of :: "backend \<Rightarrow> nat \<Rightarrow> chunk list" where
  "chunks_of b d = filter (\<lambda>c. chunk_doc c = d) (vindex b)"

text \<open>Every registered identifier is below the next free one.\<close>

definition ids_fresh :: "backend \<Rightarrow> bool" where
  "ids_fresh b = list_all (\<lambda>x. doc_id x < next_id b) (registry b)"

text \<open>Modelled from the spec: the Document record that the single-source path (4.1 to 4.4)
  leaves for a source registered under identifier \<open>d\<close>; the backend's ingestion code is
  missing.\<close>

definition ingested :: "pipeline \<Rightarrow> nat \<Rightarrow> source \<Rightarrow> document" where
  "ingested p d src =
     (case normalize p src of
        None \<Rightarrow> \<lparr>doc_id = d, origin_type = type src, origin_ref = url src, status = Failed,
                  chunk_count = 0, failure_reason = Some ''source could not be fetched''\<rparr>
      | Some raw \<Rightarrow>
          (case extract_text p (type src) raw of
             None \<Rightarrow> \<lparr>doc_id = d, origin_type = type src, origin_ref = url src, status = Failed,
                       chunk_count = 0, failure_reason = Some ''extraction failed''\<rparr>
           | Some txt \<Rightarrow>
               if chunker p txt = []
               then \<lparr>doc_id = d, origin_type = type src, origin_ref = url src, status = Failed,
                     chunk_count = 0, failure_reason = Some ''no usable text''\<rparr>
               else \<lparr>doc_id = d, origin_type = type src, origin_ref = url src, status = Completed,
                     chunk_count = length (chunker p txt), failure_reason = None\<rparr>))"

text \<open>Modelled from the spec: the chunks the single-source path (4.3, 4.5) indexes for a
  source registered under identifier \<open>d\<close>, none when the source fails; the backend's
  ingestion code is missing.\<close>

definition ingested_chunks :: "pipeline \<Rightarrow> nat \<Rightarrow> source \<Rightarrow> chunk list" where
  "ingested_chunks p d src =
     (case normalize p src of
        None \<Rightarrow> []
      | Some raw \<Rightarrow>
          (case extract_text p (type src) raw of
             None \<Rightarrow> []
           | Some txt \<Rightarrow>
               map (\<lambda>(i, t). \<lparr>chunk_doc = d, chunk_seq = i, chunk_text = t\<rparr>)
                   (zip [0 ..< length (chunker p txt)] (chunker p txt))))"

text \<open>Properties of a backend state: every indexed chunk belongs to an identifier already
  issued; the chunk count of a completed document is the number of its chunks in the
  index; every chunk belongs to a registered, completed document (no orphan chunks).\<close>

definition chunks_fresh :: "backend \<Rightarrow> bool" where
  "chunks_fresh b = list_all (\<lambda>c. chunk_doc c < next_id b) (vindex b)"

definition counts_match :: "backend \<Rightarrow> bool" where
  "counts_match b =
     list_all (\<lambda>x. status x \<noteq> Completed \<or> chunk_count x = length (chunks_of b (doc_id x)))
              (registry b)"

definition no_orphans :: "backend \<Rightarrow> bool" where
  "no_orphans b =
     list_all (\<lambda>c. list_ex (\<lambda>x. doc_id x = chunk_doc c \<and> status x = Completed) (registry b))
              (vindex b)"

definition backend_inv :: "backend \<Rightarrow> bool" where
  "backend_inv b = (ids_fresh b \<and> chunks_fresh b \<and> counts_match b \<and> no_orphans b)"

text \<open>Modelled from the spec: the per-request mode flag of 4.6, \<open>general | rag\<close>; the
  backend's chat endpoint is missing.\<close>

datatype chat_mode = General | Rag

text \<open>Modelled from the spec: the capabilities the Chat Orchestrator (4.7) invokes, which
  are missing: the Retriever's query over the index, and the language model, called with
  the conversation history, the retrieved context and the message, \<open>None\<close> when the
  invocation fails.\<close>

record capabilities =
  retrieve :: "chunk list \<Rightarrow> string \<Rightarrow> chunk list"
  invoke_model :: "string list \<Rightarrow> string list \<Rightarrow> string \<Rightarrow> string option"

text \<open>Modelled from the spec: the Chat Orchestrator's answer before it is serialised
  (message, sources, the \<open>context_used\<close> flag, and the error marker of the failure
  semantics of 4.7); the backend's chat endpoint is missing.\<close>

record chat_reply =
  reply_message :: string
  reply_sources :: "chunk list"
  reply_context_used :: bool
  reply_error :: bool

text \<open>Modelled from the spec: steps 2 to 4 of the Chat Orchestrator (4.7), which is missing.
  In rag mode with at least one completed document the Retriever is queried and its
  results become context and sources; in rag mode without completed documents, when
  retrieval yields nothing, and in general mode, the model is invoked with history and
  message only and \<open>context_used\<close> is false. A failed model invocation gives a message
  with the error marker.\<close>

definition orchestrate ::
  "capabilities \<Rightarrow> backend \<Rightarrow> string list \<Rightarrow> chat_mode \<Rightarrow> string \<Rightarrow> chat_reply" where
  "orchestrate cap b history mode msg =
     (let hits = (if mode = Rag \<and> list_ex (\<lambda>x. status x = Completed) (registry b)
                  then retrieve cap (vindex b) msg else [])
      in case invoke_model cap history (map chunk_text hits) msg of
           None \<Rightarrow>
             \<lparr>reply_message = ''[error] The assistant could not produce an answer.'',
              reply_sources = [], reply_context_used = False, reply_error = True\<rparr>
         | Some answer \<Rightarrow>
             \<lparr>reply_message = answer, reply_sources = hits,
              reply_context_used = (hits \<noteq> []), reply_error = False\<rparr>)"

text \<open>Modelled from the spec: the response of the chat contract of section 6,
  \<^verbatim>\<open>{message, sources[], conversation_id, context_used}\<close>, as the JSON body the page
  receives; the backend's serialisation is missing.\<close>

definition response_json :: "chat_reply \<Rightarrow> nat \<Rightarrow> jsval" where
  "response_json r cid =
     JObj [(''message'', JStr (reply_message r)),
           (''sources'',
              JArr (map (\<lambda>c. JObj [(''document_id'', JNum (of_nat (chunk_doc c))),
                                     (''chunk_id'', JNum (of_nat (chunk_seq c)))])
                        (reply_sources r))),
           (''conversation_id'', JNum (of_nat cid)),
           (''context_used'', JBool (reply_context_used r))]"

subsection \<open>The file-URL form\<close>

lemma starts_with_iff: "starts_with s t \<longleftrightarrow> (\<exists>q. s = t @ q)"
  by (induction s t rule: starts_with.induct) auto

lemma js_includes_iff: "js_includes s t \<longleftrightarrow> (\<exists>p q. s = p @ t @ q)"
proof (induction s)
  case Nil
  then show ?case by auto
next
  case (Cons d s)
  have "(\<exists>p q. d # s = p @ t @ q) \<longleftrightarrow> (\<exists>q. d # s = t @ q) \<or> (\<exists>p q. s = p @ t @ q)"
  proof
    assume "\<exists>p q. d # s = p @ t @ q"
    then obtain p q where e: "d # s = p @ t @ q" by blast
    show "(\<exists>q. d # s = t @ q) \<or> (\<exists>p q. s = p @ t @ q)"
    proof (cases p)
      case Nil
      with e show ?thesis by auto
    next
      case (Cons a p')
      with e have "s = p' @ t @ q" by simp
      then show ?thesis by blast
    qed
  next
    assume "(\<exists>q. d # s = t @ q) \<or> (\<exists>p q. s = p @ t @ q)"
    then show "\<exists>p q. d # s = p @ t @ q"
    proof
      assume "\<exists>q. d # s = t @ q"
      then obtain q where "d # s = [] @ t @ q" by auto
      then show ?thesis by blast
    next
      assume "\<exists>p q. s = p @ t @ q"
      then obtain p q where "d # s = (d # p) @ t @ q" by auto
      then show ?thesis by blast
    qed
  qed
  with Cons show ?case by (simp add: starts_with_iff)
qed

lemma loadKnowledgeBase_calls:
  "calls (loadKnowledgeBase s docs sts) = calls s @ [GetDocuments, GetDocumentStats]"
  by (simp add: loadKnowledgeBase_def Let_def split: outcome.splits prod.splits)

lemma loadKnowledgeBase_webUrls: "webUrls (loadKnowledgeBase s docs sts) = webUrls s"
  by (simp add: loadKnowledgeBase_def Let_def split: outcome.splits prod.splits)

lemma handleFileUrlSubmit_calls:
  "calls (handleFileUrlSubmit s res docs sts) =
     (if trim (fileUrl s) = [] then calls s
      else calls s @ file_url_call (fileUrl s)
             # (case res of Success body \<Rightarrow> [GetDocuments, GetDocumentStats] | Failure e \<Rightarrow> []))"
  by (simp add: handleFileUrlSubmit_def Let_def loadKnowledgeBase_calls split: outcome.splits)

lemma is_ingestion_file_url_call: "is_ingestion (file_url_call u)"
  by (simp add: file_url_call_def)

text \<open>
  Claim C7. Submitting a blank file URL sends no request. Submitting a non-blank one sends
  exactly one ingestion request, chosen by ordered substring tests: the Google Drive folder
  endpoint iff the URL contains \<^verbatim>\<open>drive.google.com/drive/folders/\<close>; otherwise the Google
  Drive file endpoint iff it contains \<^verbatim>\<open>drive.google.com/file/\<close> or
  \<^verbatim>\<open>drive.google.com/uc?id=\<close>; otherwise the pdf_url endpoint.
\<close>

theorem file_url_selects_one_endpoint:
  "(trim (fileUrl s) = [] \<longrightarrow> calls (handleFileUrlSubmit s res docs sts) = calls s) \<and>
   (trim (fileUrl s) \<noteq> [] \<longrightarrow>
      filter is_ingestion (drop (length (calls s)) (calls (handleFileUrlSubmit s res docs sts)))
        = [file_url_call (fileUrl s)]) \<and>
   (file_url_call u = ProcessGoogleDriveFolder u
      \<longleftrightarrow> js_includes u ''drive.google.com/drive/folders/'') \<and>
   (file_url_call u = ProcessGoogleDriveFile u
      \<longleftrightarrow> \<not> js_includes u ''drive.google.com/drive/folders/''
          \<and> (js_includes u ''drive.google.com/file/'' \<or> js_includes u ''drive.google.com/uc?id='')) \<and>
   (file_url_call u = ProcessPdfUrl u
      \<longleftrightarrow> \<not> js_includes u ''drive.google.com/drive/folders/''
          \<and> \<not> js_includes u ''drive.google.com/file/''
          \<and> \<not> js_includes u ''drive.google.com/uc?id='')"
proof -
  have a: "trim (fileUrl s) = [] \<longrightarrow> calls (handleFileUrlSubmit s res docs sts) = calls s"
    by (simp add: handleFileUrlSubmit_calls)
  have b: "trim (fileUrl s) \<noteq> [] \<longrightarrow>
      filter is_ingestion (drop (length (calls s)) (calls (handleFileUrlSubmit s res docs sts)))
        = [file_url_call (fileUrl s)]"
    by (cases res) (simp_all add: handleFileUrlSubmit_calls is_ingestion_file_url_call)
  have c: "(file_url_call u = ProcessGoogleDriveFolder u
      \<longleftrightarrow> js_includes u ''drive.google.com/drive/folders/'')"
    by (simp add: file_url_call_def is_drive_folder_def)
  have d: "(file_url_call u = ProcessGoogleDriveFile u
      \<longleftrightarrow> \<not> js_includes u ''drive.google.com/drive/folders/''
          \<and> (js_includes u ''drive.google.com/file/'' \<or> js_includes u ''drive.google.com/uc?id=''))"
    by (simp add: file_url_call_def is_drive_folder_def is_drive_file_def)
  have e: "(file_url_call u = ProcessPdfUrl u
      \<longleftrightarrow> \<not> js_includes u ''drive.google.com/drive/folders/''
          \<and> \<not> js_includes u ''drive.google.com/file/''
          \<and> \<not> js_includes u ''drive.google.com/uc?id='')"
    by (simp add: file_url_call_def is_drive_folder_def is_drive_file_def)
  from a b c d e show ?thesis by blast
qed

subsection \<open>The web-URL form\<close>

lemma validUrls_strings: "validUrls (map Url us) = Some (filter (\<lambda>u. trim u \<noteq> []) us)"
  by (induction us) simp_all

lemma handleWebUrlsSubmit_strings:
  assumes "webUrls s = map Url us"
  shows "\<exists>s'. handleWebUrlsSubmit s res docs sts = Some s' \<and>
     calls s' =
       (if filter (\<lambda>u. trim u \<noteq> []) us = [] then calls s
        else calls s @
             ProcessMultipleSources
               (map (\<lambda>u. \<lparr>url = trim u, type = ''web_url''\<rparr>) (filter (\<lambda>u. trim u \<noteq> []) us))
             # (case res of Success body \<Rightarrow> [GetDocuments, GetDocumentStats] | Failure e \<Rightarrow> []))"
  using assms
  by (simp add: handleWebUrlsSubmit_def validUrls_strings Let_def loadKnowledgeBase_calls
      split: outcome.splits)

subsection \<open>Registry and index\<close>

lemma update_other:
  assumes "list_all (\<lambda>x. doc_id x \<noteq> d) xs"
  shows "map (\<lambda>x. if doc_id x = d then f x else x) xs = xs"
  using assms by (induction xs) auto

lemma registry_upsert [simp]: "registry (upsert_chunks b d ps) = registry b"
  by (simp add: upsert_chunks_def)

lemma next_id_upsert [simp]: "next_id (upsert_chunks b d ps) = next_id b"
  by (simp add: upsert_chunks_def)

lemma next_id_update [simp]: "next_id (update_document b d st n why) = next_id b"
  by (simp add: update_document_def)

lemma registry_update_new:
  assumes "ids_fresh b"
  shows "registry (update_document (b\<lparr>registry := registry b @ [x\<lparr>doc_id := next_id b\<rparr>]\<rparr>)
                     (next_id b) st n why)
         = registry b @ [x\<lparr>doc_id := next_id b, status := st, chunk_count := n, failure_reason := why\<rparr>]"
proof -
  from assms have "list_all (\<lambda>y. doc_id y \<noteq> next_id b) (registry b)"
    by (auto simp: ids_fresh_def list_all_iff)
  then show ?thesis
    by (simp add: update_document_def update_other)
qed

lemma registry_update:
  "registry (update_document b d st n why)
     = map (\<lambda>x. if doc_id x = d
                    then x\<lparr>status := st, chunk_count := n, failure_reason := why\<rparr> else x)
           (registry b)"
  by (simp add: update_document_def)

lemma vindex_update [simp]: "vindex (update_document b d st n why) = vindex b"
  by (simp add: update_document_def)

lemma fresh_other: "ids_fresh b \<Longrightarrow> list_all (\<lambda>y. doc_id y \<noteq> next_id b) (registry b)"
  by (auto simp: ids_fresh_def list_all_iff)

lemma ingest_registry:
  assumes "ids_fresh b"
  shows "registry (ingest p b src) = registry b @ [ingested p (next_id b) src]"
  using fresh_other [OF assms]
  by (simp add: ingest_def ingested_def create_document_def Let_def registry_update update_other
      split: option.splits)

lemma ingest_next_id: "next_id (ingest p b src) = Suc (next_id b)"
  by (simp add: ingest_def create_document_def Let_def split: option.splits)

lemma doc_id_ingested [simp]: "doc_id (ingested p d src) = d"
  by (simp add: ingested_def split: option.splits)

lemma status_ingested: "status (ingested p d src) = single_status p src"
  by (simp add: ingested_def single_status_def split: option.splits)

lemma ingested_chunk_count:
  "status (ingested p d src) \<noteq> Completed \<or> chunk_count (ingested p d src) \<ge> 1"
  by (auto simp: ingested_def Suc_le_eq split: option.splits)

lemma ingest_fresh: "ids_fresh b \<Longrightarrow> ids_fresh (ingest p b src)"
  by (auto simp: ids_fresh_def ingest_registry ingest_next_id list_all_iff less_Suc_eq)

lemma ingest_completed:
  "ids_fresh b \<Longrightarrow> completed_have_chunks b \<Longrightarrow> completed_have_chunks (ingest p b src)"
  using ingested_chunk_count [of p "next_id b" src]
  by (simp add: completed_have_chunks_def ingest_registry)

lemma batch_registry:
  "ids_fresh b \<Longrightarrow>
   \<exists>docs. registry (process_multiple_sources p b srcs) = registry b @ docs
        \<and> map status docs = map (single_status p) srcs
        \<and> ids_fresh (process_multiple_sources p b srcs)"
proof (induction srcs arbitrary: b)
  case Nil
  then show ?case by (simp add: process_multiple_sources_def)
next
  case (Cons a srcs)
  from Cons.IH [OF ingest_fresh [OF Cons.prems], of p a]
  obtain docs where d: "registry (process_multiple_sources p (ingest p b a) srcs)
                          = registry (ingest p b a) @ docs"
    and m: "map status docs = map (single_status p) srcs"
    and f: "ids_fresh (process_multiple_sources p (ingest p b a) srcs)"
    by blast
  have "registry (process_multiple_sources p b (a # srcs))
          = registry b @ (ingested p (next_id b) a # docs)"
    using d by (simp add: process_multiple_sources_def ingest_registry [OF Cons.prems])
  moreover have "map status (ingested p (next_id b) a # docs) = map (single_status p) (a # srcs)"
    using m by (simp add: status_ingested)
  moreover have "ids_fresh (process_multiple_sources p b (a # srcs))"
    using f by (simp add: process_multiple_sources_def)
  ultimately show ?case by blast
qed

lemma batch_completed:
  "ids_fresh b \<Longrightarrow> completed_have_chunks b \<Longrightarrow>
   completed_have_chunks (process_multiple_sources p b srcs)"
  unfolding process_multiple_sources_def
  by (induction srcs arbitrary: b) (simp_all add: ingest_fresh ingest_completed)

lemma batch_fresh: "ids_fresh b \<Longrightarrow> ids_fresh (process_multiple_sources p b srcs)"
  using batch_registry by blast

lemma delete_fresh: "ids_fresh b \<Longrightarrow> ids_fresh (delete_document b d)"
  by (auto simp: ids_fresh_def delete_document_def delete_by_document_def list_all_iff)

lemma delete_completed:
  "completed_have_chunks b \<Longrightarrow> completed_have_chunks (delete_document b d)"
  by (auto simp: completed_have_chunks_def delete_document_def delete_by_document_def list_all_iff)

lemma delete_no_chunks: "chunks_of (delete_document b d) d = []"
  by (simp add: chunks_of_def delete_document_def delete_by_document_def filter_empty_conv)

lemma step_inv:
  "ids_fresh b \<and> completed_have_chunks b \<Longrightarrow>
   ids_fresh (backend_step p b e) \<and> completed_have_chunks (backend_step p b e)"
  by (cases e)
     (simp_all add: ingest_fresh ingest_completed batch_fresh batch_completed
        delete_fresh delete_completed)

lemma foldl_inv:
  "ids_fresh b \<and> completed_have_chunks b \<Longrightarrow>
   ids_fresh (foldl (backend_step p) b es) \<and> completed_have_chunks (foldl (backend_step p) b es)"
proof (induction es arbitrary: b)
  case Nil
  then show ?case by simp
next
  case (Cons e es)
  from Cons.IH [OF step_inv [OF Cons.prems]] show ?case by simp
qed

lemma run_inv: "ids_fresh (backend_run p es) \<and> completed_have_chunks (backend_run p es)"
  unfolding backend_run_def
  by (rule foldl_inv) (simp add: ids_fresh_def completed_have_chunks_def empty_backend_def)

lemma ingest_vindex: "vindex (ingest p b src) = vindex b @ ingested_chunks p (next_id b) src"
  by (simp add: ingest_def ingested_chunks_def create_document_def upsert_chunks_def
      update_document_def Let_def split: option.splits)

lemma ingested_chunks_doc: "c \<in> set (ingested_chunks p d src) \<Longrightarrow> chunk_doc c = d"
  by (auto simp: ingested_chunks_def split: option.splits)

lemma ingested_chunks_length:
  "length (ingested_chunks p d src) = chunk_count (ingested p d src)"
  by (simp add: ingested_chunks_def ingested_def split: option.splits)

lemma ingested_chunks_completed:
  "ingested_chunks p d src \<noteq> [] \<Longrightarrow> status (ingested p d src) = Completed"
  by (auto simp: ingested_chunks_def ingested_def split: option.splits)

lemma filter_all: "(\<And>c. c \<in> set cs \<Longrightarrow> P c) \<Longrightarrow> filter P cs = cs"
  by (induction cs) auto

lemma filter_none: "(\<And>c. c \<in> set cs \<Longrightarrow> \<not> P c) \<Longrightarrow> filter P cs = []"
  by (induction cs) auto

lemma chunks_of_ingest:
  "chunks_of (ingest p b src) d =
     chunks_of b d @ (if d = next_id b then ingested_chunks p (next_id b) src else [])"
proof (cases "d = next_id b")
  case True
  have "filter (\<lambda>c. chunk_doc c = next_id b) (ingested_chunks p (next_id b) src)
          = ingested_chunks p (next_id b) src"
    by (rule filter_all) (simp add: ingested_chunks_doc)
  with True show ?thesis by (simp add: chunks_of_def ingest_vindex)
next
  case False
  have "filter (\<lambda>c. chunk_doc c = d) (ingested_chunks p (next_id b) src) = []"
    by (rule filter_none) (use False ingested_chunks_doc in auto)
  with False show ?thesis by (simp add: chunks_of_def ingest_vindex)
qed

lemma chunks_of_fresh: "chunks_fresh b \<Longrightarrow> chunks_of b (next_id b) = []"
  unfolding chunks_of_def chunks_fresh_def
  by (rule filter_none) (auto simp: list_all_iff)

lemma ingest_chunks_fresh: "chunks_fresh b \<Longrightarrow> chunks_fresh (ingest p b src)"
  by (auto simp: chunks_fresh_def ingest_vindex ingest_next_id list_all_iff
      dest: ingested_chunks_doc)

lemma ingest_counts_match:
  assumes "ids_fresh b" and "chunks_fresh b" and "counts_match b"
  shows "counts_match (ingest p b src)"
proof -
  have old: "status x \<noteq> Completed \<or> chunk_count x = length (chunks_of (ingest p b src) (doc_id x))"
    if "x \<in> set (registry b)" for x
  proof -
    from that assms(1) have "doc_id x \<noteq> next_id b"
      by (auto simp: ids_fresh_def list_all_iff)
    moreover from that assms(3)
    have "status x \<noteq> Completed \<or> chunk_count x = length (chunks_of b (doc_id x))"
      by (auto simp: counts_match_def list_all_iff)
    ultimately show ?thesis by (simp add: chunks_of_ingest)
  qed
  have new: "chunk_count (ingested p (next_id b) src)
               = length (chunks_of (ingest p b src) (doc_id (ingested p (next_id b) src)))"
    by (simp add: chunks_of_ingest chunks_of_fresh [OF assms(2)] ingested_chunks_length)
  show ?thesis
    unfolding counts_match_def ingest_registry [OF assms(1)]
    using old new by (simp add: list_all_iff)
qed

lemma ingest_no_orphans:
  assumes "ids_fresh b" and "no_orphans b"
  shows "no_orphans (ingest p b src)"
proof -
  have old: "list_ex (\<lambda>x. doc_id x = chunk_doc c \<and> status x = Completed)
               (registry b @ [ingested p (next_id b) src])"
    if "c \<in> set (vindex b)" for c
    using that assms(2) by (auto simp: no_orphans_def list_all_iff list_ex_iff)
  have new: "list_ex (\<lambda>x. doc_id x = chunk_doc c \<and> status x = Completed)
               (registry b @ [ingested p (next_id b) src])"
    if "c \<in> set (ingested_chunks p (next_id b) src)" for c
  proof -
    from that have "ingested_chunks p (next_id b) src \<noteq> []" by auto
    then have "status (ingested p (next_id b) src) = Completed"
      by (rule ingested_chunks_completed)
    with ingested_chunks_doc [OF that] show ?thesis by (simp add: list_ex_iff)
  qed
  show ?thesis
    unfolding no_orphans_def ingest_registry [OF assms(1)] ingest_vindex
    using old new by (auto simp: list_all_iff)
qed

lemma ingest_inv: "backend_inv b \<Longrightarrow> backend_inv (ingest p b src)"
  by (simp add: backend_inv_def ingest_fresh ingest_chunks_fresh ingest_counts_match
      ingest_no_orphans)

lemma batch_inv: "backend_inv b \<Longrightarrow> backend_inv (process_multiple_sources p b srcs)"
  unfolding process_multiple_sources_def
  by (induction srcs arbitrary: b) (simp_all add: ingest_inv)

lemma chunks_of_delete:
  "chunks_of (delete_document b d) d' = (if d' = d then [] else chunks_of b d')"
proof (cases "d' = d")
  case True
  then show ?thesis by (simp add: delete_no_chunks)
next
  case False
  have "filter (\<lambda>c. chunk_doc c = d') (filter (\<lambda>c. chunk_doc c \<noteq> d) (vindex b))
          = filter (\<lambda>c. chunk_doc c = d') (vindex b)"
    using False by (auto simp: filter_filter intro: filter_cong)
  with False show ?thesis
    by (simp add: chunks_of_def delete_document_def delete_by_document_def)
qed

lemma delete_inv: "backend_inv b \<Longrightarrow> backend_inv (delete_document b d)"
proof -
  assume i: "backend_inv b"
  have r: "registry (delete_document b d) = filter (\<lambda>x. doc_id x \<noteq> d) (registry b)"
    and v: "vindex (delete_document b d) = filter (\<lambda>c. chunk_doc c \<noteq> d) (vindex b)"
    and n: "next_id (delete_document b d) = next_id b"
    by (simp_all add: delete_document_def delete_by_document_def)
  from i have "chunks_fresh (delete_document b d)"
    by (auto simp: backend_inv_def chunks_fresh_def v n list_all_iff)
  moreover from i have "counts_match (delete_document b d)"
    by (auto simp: backend_inv_def counts_match_def r chunks_of_delete list_all_iff)
  moreover have "no_orphans (delete_document b d)"
    unfolding no_orphans_def r v list_all_iff list_ex_iff
  proof
    fix c assume c: "c \<in> set (filter (\<lambda>c. chunk_doc c \<noteq> d) (vindex b))"
    then have "c \<in> set (vindex b)" and nd: "chunk_doc c \<noteq> d" by auto
    with i obtain x where "x \<in> set (registry b)" "doc_id x = chunk_doc c" "status x = Completed"
      by (auto simp: backend_inv_def no_orphans_def list_all_iff list_ex_iff)
    with nd have "x \<in> set (filter (\<lambda>x. doc_id x \<noteq> d) (registry b))
        \<and> doc_id x = chunk_doc c \<and> status x = Completed" by simp
    then show "\<exists>x\<in>set (filter (\<lambda>x. doc_id x \<noteq> d) (registry b)).
                 doc_id x = chunk_doc c \<and> status x = Completed" by blast
  qed
  moreover from i have "ids_fresh (delete_document b d)"
    by (simp add: backend_inv_def delete_fresh)
  ultimately show ?thesis by (simp add: backend_inv_def)
qed

lemma step_backend_inv: "backend_inv b \<Longrightarrow> backend_inv (backend_step p b e)"
  by (cases e) (simp_all add: ingest_inv batch_inv delete_inv)

lemma foldl_backend_inv: "backend_inv b \<Longrightarrow> backend_inv (foldl (backend_step p) b es)"
  by (induction es arbitrary: b) (simp_all add: step_backend_inv)

lemma run_backend_inv: "backend_inv (backend_run p es)"
  unfolding backend_run_def
  by (rule foldl_backend_inv)
     (simp add: backend_inv_def ids_fresh_def chunks_fresh_def counts_match_def no_orphans_def
        empty_backend_def)

subsection \<open>Concrete runs\<close>

text \<open>A page state, a pipeline, sources and capabilities on which the handlers and the
  backend model are run.\<close>

definition kb0 :: kb_state where
  "kb0 = \<lparr>documents = JArr [], stats = JNull, kb_loading = False, isProcessing = False,
           fileUrl = [], webUrls = initial_webUrls, calls = [], kb_toasts = []\<rparr>"

definition folder_url :: string where
  "folder_url = ''https://drive.google.com/drive/folders/1AbC''"

definition pipeline0 :: pipeline where
  "pipeline0 =
     \<lparr>normalize = (\<lambda>src. if js_includes (url src) ''unreachable'' then None else Some (url src)),
      extract_text = (\<lambda>kind raw. Some raw),
      chunker = (\<lambda>txt. if txt = [] then [] else [take 8 txt, drop 8 txt])\<rparr>"

definition page_a :: source where
  "page_a = \<lparr>url = ''https://a.example/1'', type = ''web_url''\<rparr>"

definition page_b :: source where
  "page_b = \<lparr>url = ''https://b.example/2'', type = ''web_url''\<rparr>"

definition page_down :: source where
  "page_down = \<lparr>url = ''https://unreachable.example'', type = ''web_url''\<rparr>"

definition capabilities0 :: capabilities where
  "capabilities0 =
     \<lparr>retrieve = (\<lambda>idx query. take 2 idx),
      invoke_model = (\<lambda>history context msg. Some (''Answer to: '' @ msg))\<rparr>"

definition entered_urls :: "string list" where
  "entered_urls = [''  https://a.example/1 '', ''   '', ''https://b.example/2'']"

lemma run_two_pages:
  "backend_run pipeline0 [Ingest page_a, Ingest page_b] =
     \<lparr>registry =
        [\<lparr>doc_id = 0, origin_type = ''web_url'', origin_ref = ''https://a.example/1'',
          status = Completed, chunk_count = 2, failure_reason = None\<rparr>,
         \<lparr>doc_id = 1, origin_type = ''web_url'', origin_ref = ''https://b.example/2'',
          status = Completed, chunk_count = 2, failure_reason = None\<rparr>],
      vindex =
        [\<lparr>chunk_doc = 0, chunk_seq = 0, chunk_text = ''https://''\<rparr>,
         \<lparr>chunk_doc = 0, chunk_seq = 1, chunk_text = ''a.example/1''\<rparr>,
         \<lparr>chunk_doc = 1, chunk_seq = 0, chunk_text = ''https://''\<rparr>,
         \<lparr>chunk_doc = 1, chunk_seq = 1, chunk_text = ''b.example/2''\<rparr>],
      next_id = 2\<rparr>"
  by (simp add: backend_run_def empty_backend_def ingest_def create_document_def
      update_document_def upsert_chunks_def pipeline0_def page_a_def page_b_def Let_def upt_rec)

lemma run_page_down:
  "backend_run pipeline0 [Ingest page_down] =
     \<lparr>registry =
        [\<lparr>doc_id = 0, origin_type = ''web_url'', origin_ref = ''https://unreachable.example'',
          status = Failed, chunk_count = 0,
          failure_reason = Some ''source could not be fetched''\<rparr>],
      vindex = [], next_id = 1\<rparr>"
  by (simp add: backend_run_def empty_backend_def ingest_def create_document_def
      update_document_def pipeline0_def page_down_def Let_def)

theorem file_url_selects_one_endpoint_witness:
  "trim (fileUrl (kb0\<lparr>fileUrl := []\<rparr>)) = []
   \<and> calls (handleFileUrlSubmit (kb0\<lparr>fileUrl := []\<rparr>) (Success JNull) (Success (JArr [])) (Success JNull)) = []
   \<and> trim (fileUrl (kb0\<lparr>fileUrl := folder_url\<rparr>)) \<noteq> []
   \<and> js_includes folder_url ''drive.google.com/drive/folders/''
   \<and> filter is_ingestion (calls (handleFileUrlSubmit (kb0\<lparr>fileUrl := folder_url\<rparr>)
          (Success JNull) (Success (JArr [])) (Success JNull)))
       = [ProcessGoogleDriveFolder folder_url]"
proof -
  have i: "js_includes folder_url ''drive.google.com/drive/folders/''"
    by (simp add: folder_url_def)
  have t: "trim (fileUrl (kb0\<lparr>fileUrl := folder_url\<rparr>)) \<noteq> []"
    by (simp add: trim_def is_space_def folder_url_def)
  have e: "trim (fileUrl (kb0\<lparr>fileUrl := []\<rparr>)) = []"
    by (simp add: trim_def)
  have c: "calls (kb0\<lparr>fileUrl := u\<rparr>) = []" for u
    by (simp add: kb0_def)
  show ?thesis
    using i t e
      file_url_selects_one_endpoint
        [of "kb0\<lparr>fileUrl := []\<rparr>" "Success JNull" "Success (JArr [])" "Success JNull" folder_url]
      file_url_selects_one_endpoint
        [of "kb0\<lparr>fileUrl := folder_url\<rparr>" "Success JNull" "Success (JArr [])" "Success JNull" folder_url]
    by (simp add: c)
qed

subsection \<open>Batch submission\<close>

lemma trimmed_nonempty:
  "map (\<lambda>u. \<lparr>url = trim u, type = ''web_url''\<rparr>) (filter (\<lambda>u. trim u \<noteq> []) us)
     = map (\<lambda>u. \<lparr>url = u, type = ''web_url''\<rparr>) (filter (\<lambda>u. u \<noteq> []) (map trim us))"
  by (induction us) simp_all

lemma handleWebUrlsSubmit_requests:
  assumes "webUrls s = map Url us"
  shows "map_option (\<lambda>s'. filter is_ingestion (drop (length (calls s)) (calls s')))
           (handleWebUrlsSubmit s res docs sts)
         = Some (if filter (\<lambda>u. u \<noteq> []) (map trim us) = [] then []
                 else [ProcessMultipleSources
                         (map (\<lambda>u. \<lparr>url = u, type = ''web_url''\<rparr>)
                              (filter (\<lambda>u. u \<noteq> []) (map trim us)))])"
proof -
  have f: "(filter (\<lambda>u. u \<noteq> []) (map trim us) = []) = (filter (\<lambda>u. trim u \<noteq> []) us = [])"
    by (simp add: filter_map comp_def)
  from handleWebUrlsSubmit_strings [OF assms, of res docs sts]
  obtain s' where h: "handleWebUrlsSubmit s res docs sts = Some s'"
    and c: "calls s' =
       (if filter (\<lambda>u. trim u \<noteq> []) us = [] then calls s
        else calls s @
             ProcessMultipleSources
               (map (\<lambda>u. \<lparr>url = trim u, type = ''web_url''\<rparr>) (filter (\<lambda>u. trim u \<noteq> []) us))
             # (case res of Success body \<Rightarrow> [GetDocuments, GetDocumentStats] | Failure e \<Rightarrow> []))"
    by blast
  show ?thesis
    unfolding h f using c
    by (cases res) (simp_all add: trimmed_nonempty)
qed

lemma batch_statuses:
  "map status (drop (length (registry (backend_run p es)))
                 (registry (process_multiple_sources p (backend_run p es) srcs)))
     = map (single_status p) srcs
   \<and> take (length (registry (backend_run p es)))
        (registry (process_multiple_sources p (backend_run p es) srcs))
     = registry (backend_run p es)"
proof -
  have "ids_fresh (backend_run p es)" using run_inv by blast
  from batch_registry [OF this, of p srcs] show ?thesis by auto
qed

text \<open>
  Claim C8. For every list of entered web URLs the submission sends, as one
  \<^verbatim>\<open>processMultipleSources\<close> request, exactly the trimmed non-empty URLs in their original
  order, each with type \<^verbatim>\<open>web_url\<close>; when every entry is blank no request is sent. In the
  batch path of the backend every source of the batch gets its own Document, in order,
  with the status the single-source path gives that source alone, and the documents
  registered before are unchanged: a failing item does not abort the rest.
\<close>

theorem web_urls_batch_fan_out:
  "(webUrls s = map Url us \<longrightarrow>
      map_option (\<lambda>s'. filter is_ingestion (drop (length (calls s)) (calls s')))
           (handleWebUrlsSubmit s res docs sts)
         = Some (if filter (\<lambda>u. u \<noteq> []) (map trim us) = [] then []
                 else [ProcessMultipleSources
                         (map (\<lambda>u. \<lparr>url = u, type = ''web_url''\<rparr>)
                              (filter (\<lambda>u. u \<noteq> []) (map trim us)))]))
   \<and> map status (drop (length (registry (backend_run p es)))
                 (registry (process_multiple_sources p (backend_run p es) srcs)))
     = map (single_status p) srcs
   \<and> take (length (registry (backend_run p es)))
        (registry (process_multiple_sources p (backend_run p es) srcs))
     = registry (backend_run p es)"
  using handleWebUrlsSubmit_requests [of s us res docs sts] batch_statuses [of p es srcs]
  by blast

theorem web_urls_batch_fan_out_witness:
  "webUrls (kb0\<lparr>webUrls := map Url entered_urls\<rparr>) = map Url entered_urls
   \<and> map_option (\<lambda>s'. filter is_ingestion (drop (length (calls (kb0\<lparr>webUrls := map Url entered_urls\<rparr>))) (calls s')))
        (handleWebUrlsSubmit (kb0\<lparr>webUrls := map Url entered_urls\<rparr>)
           (Success JNull) (Success (JArr [])) (Success JNull))
       = Some [ProcessMultipleSources [page_a, page_b]]
   \<and> map status (registry (process_multiple_sources pipeline0 (backend_run pipeline0 [])
                               [page_a, page_down, page_b]))
       = [Completed, Failed, Completed]"
proof -
  have t: "map trim entered_urls = [''https://a.example/1'', [], ''https://b.example/2'']"
    by (simp add: entered_urls_def trim_def is_space_def)
  have w: "webUrls (kb0\<lparr>webUrls := map Url entered_urls\<rparr>) = map Url entered_urls"
    by simp
  have st: "single_status pipeline0 page_a = Completed" "single_status pipeline0 page_down = Failed"
    "single_status pipeline0 page_b = Completed"
    by (simp_all add: single_status_def pipeline0_def page_a_def page_b_def page_down_def)
  have r: "registry (backend_run pipeline0 []) = []"
    by (simp add: backend_run_def empty_backend_def)
  have a: "\<lparr>url = ''https://a.example/1'', type = ''web_url''\<rparr> = page_a"
    and b: "\<lparr>url = ''https://b.example/2'', type = ''web_url''\<rparr> = page_b"
    by (simp_all add: page_a_def page_b_def)
  show ?thesis
    using w web_urls_batch_fan_out
      [of "kb0\<lparr>webUrls := map Url entered_urls\<rparr>" entered_urls "Success JNull"
          "Success (JArr [])" "Success JNull" pipeline0 "[]" "[page_a, page_down, page_b]"]
    by (simp add: t st r a b)
qed

subsection \<open>Completed documents and deletion\<close>

text \<open>
  Claim C2. In every state the registry reaches through ingestions, batches and
  deletions, a document whose status is completed has a chunk count of at least 1, which
  is the number of its chunks in the vector index; and after deleting a document no chunk
  of the vector index references it.
\<close>

theorem completed_documents_have_chunks:
  "(\<forall>x \<in> set (registry (backend_run p es)).
      status x = Completed \<longrightarrow>
        1 \<le> chunk_count x
        \<and> length (chunks_of (backend_run p es) (doc_id x)) = chunk_count x)
   \<and> chunks_of (delete_document (backend_run p es) d) d = []
   \<and> (\<forall>c \<in> set (vindex (delete_document (backend_run p es) d)). chunk_doc c \<noteq> d)"
proof -
  have "completed_have_chunks (backend_run p es)" using run_inv by blast
  then have a: "\<forall>x \<in> set (registry (backend_run p es)). status x = Completed \<longrightarrow> 1 \<le> chunk_count x"
    by (auto simp: completed_have_chunks_def list_all_iff)
  have "counts_match (backend_run p es)"
    using run_backend_inv [of p es] by (simp add: backend_inv_def)
  then have m: "\<forall>x \<in> set (registry (backend_run p es)).
      status x = Completed \<longrightarrow> length (chunks_of (backend_run p es) (doc_id x)) = chunk_count x"
    by (auto simp: counts_match_def list_all_iff)
  have z: "chunks_of (delete_document (backend_run p es) d) d = []"
    by (rule delete_no_chunks)
  have b: "\<forall>c \<in> set (vindex (delete_document (backend_run p es) d)). chunk_doc c \<noteq> d"
    using z by (simp add: chunks_of_def filter_empty_conv)
  from a m z b show ?thesis by blast
qed

theorem completed_documents_have_chunks_witness:
  "\<lparr>doc_id = 0, origin_type = ''web_url'', origin_ref = ''https://a.example/1'',
     status = Completed, chunk_count = 2, failure_reason = None\<rparr>
     \<in> set (registry (backend_run pipeline0 [Ingest page_a, Ingest page_b]))
   \<and> \<lparr>chunk_doc = 1, chunk_seq = 0, chunk_text = ''https://''\<rparr>
     \<in> set (vindex (delete_document (backend_run pipeline0 [Ingest page_a, Ingest page_b]) 0))
   \<and> vindex (delete_document (backend_run pipeline0 [Ingest page_a, Ingest page_b]) 0)
       = [\<lparr>chunk_doc = 1, chunk_seq = 0, chunk_text = ''https://''\<rparr>,
          \<lparr>chunk_doc = 1, chunk_seq = 1, chunk_text = ''b.example/2''\<rparr>]"
  using completed_documents_have_chunks [of pipeline0 "[Ingest page_a, Ingest page_b]" 0]
  by (simp add: run_two_pages delete_document_def delete_by_document_def)

subsection \<open>Grounded mode without documents\<close>

lemma no_completed_iff:
  "list_ex (\<lambda>x. status x = Completed) (registry b)
     = (filter (\<lambda>x. status x = Completed) (registry b) \<noteq> [])"
  by (simp add: list_ex_iff filter_empty_conv)

lemma assistantEntry_context_used:
  "own_prop (assistantEntry clk response cd) ''context_used''
     = js_or (field response ''context_used'') (JBool False)"
  by (simp add: assistantEntry_def own_prop_def)

lemma assistantEntry_role:
  "own_prop (assistantEntry clk response cd) ''role'' = JStr ''assistant''"
  by (simp add: assistantEntry_def own_prop_def)

lemma response_json_context_used:
  "field (response_json r cid) ''context_used'' = JBool (reply_context_used r)"
  by (simp add: response_json_def field_def own_prop_def)

text \<open>
  Claim C3. A chat request in rag mode while no document is completed is answered as in
  general mode: the reply equals the general-mode reply, its \<open>context_used\<close> is false,
  and it carries no error marker when the model answers. The assistant message the page
  renders from it has \<open>context_used = false\<close> and shows no knowledge-base badge; and
  whenever a response omits \<^verbatim>\<open>context_used\<close> the rendered message has it false.
\<close>

theorem rag_without_documents_falls_back:
  assumes "filter (\<lambda>x. status x = Completed) (registry b) = []"
  shows "orchestrate cap b h Rag msg = orchestrate cap b h General msg
       \<and> \<not> reply_context_used (orchestrate cap b h Rag msg)
       \<and> (invoke_model cap h [] msg \<noteq> None \<longrightarrow> \<not> reply_error (orchestrate cap b h Rag msg))
       \<and> own_prop (assistantEntry clk (response_json (orchestrate cap b h Rag msg) cid) cd)
            ''context_used'' = JBool False
       \<and> \<not> badge_displayed (assistantEntry clk (response_json (orchestrate cap b h Rag msg) cid) cd)
       \<and> (field response ''context_used'' = JUndefined \<longrightarrow>
            own_prop (assistantEntry clk response cd) ''context_used'' = JBool False)"
proof -
  have n: "\<not> list_ex (\<lambda>x. status x = Completed) (registry b)"
    using assms by (simp add: no_completed_iff)
  have e: "orchestrate cap b h Rag msg = orchestrate cap b h General msg"
    using n by (simp add: orchestrate_def)
  have u: "\<not> reply_context_used (orchestrate cap b h Rag msg)"
    using n by (simp add: orchestrate_def split: option.splits)
  have r: "invoke_model cap h [] msg \<noteq> None \<longrightarrow> \<not> reply_error (orchestrate cap b h Rag msg)"
    using n by (auto simp: orchestrate_def split: option.splits)
  have c: "own_prop (assistantEntry clk (response_json (orchestrate cap b h Rag msg) cid) cd)
            ''context_used'' = JBool False"
    using u by (simp add: assistantEntry_context_used response_json_context_used js_or_def)
  have g: "\<not> badge_displayed (assistantEntry clk (response_json (orchestrate cap b h Rag msg) cid) cd)"
    using c by (simp add: badge_displayed_def)
  have d: "field response ''context_used'' = JUndefined \<longrightarrow>
            own_prop (assistantEntry clk response cd) ''context_used'' = JBool False"
    by (simp add: assistantEntry_context_used js_or_def)
  from e u r c g d show ?thesis by blast
qed

theorem rag_without_documents_falls_back_witness:
  "filter (\<lambda>x. status x = Completed) (registry (backend_run pipeline0 [Ingest page_down])) = []
   \<and> invoke_model capabilities0 [] [] ''What is our revenue?'' \<noteq> None
   \<and> orchestrate capabilities0 (backend_run pipeline0 [Ingest page_down]) [] Rag ''What is our revenue?''
       = \<lparr>reply_message = ''Answer to: What is our revenue?'', reply_sources = [],
          reply_context_used = False, reply_error = False\<rparr>
   \<and> field (JObj [(''message'', JStr ''Hello'')]) ''context_used'' = JUndefined
   \<and> own_prop (assistantEntry clk0 (JObj [(''message'', JStr ''Hello'')]) JNull) ''context_used''
       = JBool False"
proof -
  have f: "filter (\<lambda>x. status x = Completed) (registry (backend_run pipeline0 [Ingest page_down])) = []"
    by (simp add: run_page_down)
  have m: "invoke_model capabilities0 [] [] ''What is our revenue?'' \<noteq> None"
    by (simp add: capabilities0_def)
  have u: "field (JObj [(''message'', JStr ''Hello'')]) ''context_used'' = JUndefined"
    by (simp add: field_def own_prop_def)
  have g: "orchestrate capabilities0 (backend_run pipeline0 [Ingest page_down]) [] General
             ''What is our revenue?''
           = \<lparr>reply_message = ''Answer to: What is our revenue?'', reply_sources = [],
              reply_context_used = False, reply_error = False\<rparr>"
    by (simp add: orchestrate_def capabilities0_def)
  show ?thesis
    using f m u g rag_without_documents_falls_back
      [OF f, of capabilities0 "[]" "''What is our revenue?''" clk0 0 JNull
          "JObj [(''message'', JStr ''Hello'')]"]
    by simp
qed

section \<open>Tally analytics: ledger fields\<close>

text \<open>
  \<^verbatim>\<open>ledger.opening_balance || ledger.balance || 0\<close>: the value the ledger table (line 789)
  and the top-ledger chart (line 595) hand to \<^verbatim>\<open>parseFloat\<close> and the CSV export (line 557)
  writes. Reading a property of a ledger that is \<^verbatim>\<open>null\<close> or \<^verbatim>\<open>undefined\<close> is a TypeError
  (\<open>None\<close>).
\<close>

definition ledger_balance :: "jsval \<Rightarrow> jsval option" where
  "ledger_balance ledger =
     (case get ledger ''opening_balance'' of
        None \<Rightarrow> None
      | Some ob \<Rightarrow>
          if truthy ob then Some ob
          else (case get ledger ''balance'' of
                  None \<Rightarrow> None
                | Some bal \<Rightarrow> Some (if truthy bal then bal else JNum 0)))"

text \<open>\<^verbatim>\<open>ledger.parent || ledger.group || 'N/A'\<close>, in the table (line 796) and the CSV export.\<close>

definition ledger_group :: "jsval \<Rightarrow> jsval option" where
  "ledger_group ledger =
     (case get ledger ''parent'' of
        None \<Rightarrow> None
      | Some par \<Rightarrow>
          if truthy par then Some par
          else (case get ledger ''group'' of
                  None \<Rightarrow> None
                | Some grp \<Rightarrow> Some (if truthy grp then grp else JStr ''N/A'')))"

text \<open>\<^verbatim>\<open>l.name || l.ledger_name\<close>\<close>

definition ledger_name :: "jsval \<Rightarrow> jsval option" where
  "ledger_name ledger =
     (case get ledger ''name'' of
        None \<Rightarrow> None
      | Some n \<Rightarrow>
          if truthy n then Some n
          else (case get ledger ''ledger_name'' of
                  None \<Rightarrow> None
                | Some other \<Rightarrow> Some other))"

text \<open>
  \<^verbatim>\<open>topLedgers\<close>: the first ten ledgers that are truthy and named, each with its name and
  \<^verbatim>\<open>Math.abs(parseFloat(l.opening_balance || l.balance || 0))\<close>. The floating-point
  conversion \<^verbatim>\<open>Math.abs(parseFloat(_))\<close> is the parameter \<open>abs_parseFloat\<close>.
\<close>

definition topLedgers :: "(jsval \<Rightarrow> 'n) \<Rightarrow> jsval list \<Rightarrow> (jsval \<times> 'n) list" where
  "topLedgers abs_parseFloat ledgers =
     map (\<lambda>l. (case ledger_name l of Some n \<Rightarrow> n | None \<Rightarrow> JUndefined,
                abs_parseFloat (case ledger_balance l of Some v \<Rightarrow> v | None \<Rightarrow> JUndefined)))
       (take 10
          (filter (\<lambda>l. truthy l \<and> (case ledger_name l of Some n \<Rightarrow> truthy n | None \<Rightarrow> False))
                  ledgers))"

text \<open>A ledger as the accounting system can send it: the opening balance is zero and the
  parent is empty.\<close>

definition cash_ledger :: jsval where
  "cash_ledger =
     JObj [(''name'', JStr ''Cash''), (''parent'', JStr ''''), (''group'', JStr ''Current Assets''),
           (''opening_balance'', JNum 0), (''balance'', JNum 500)]"

text \<open>
  Claim C4 as written fails: in \<open>cash_ledger\<close> the field \<^verbatim>\<open>opening_balance\<close> is present
  with value 0, yet the balance shown and exported is 500, the \<^verbatim>\<open>balance\<close> field.
\<close>

theorem ledger_present_zero_counterexample:
  "get cash_ledger ''opening_balance'' = Some (JNum 0)
   \<and> ledger_balance cash_ledger = Some (JNum 500)"
  by (simp add: cash_ledger_def ledger_balance_def own_prop_def)

text \<open>
  Claim C4, amended. For every ledger record each concept is resolved through an ordered
  alias list in which the first truthy field wins: the balance is \<^verbatim>\<open>opening_balance\<close> when
  that is truthy (present and not 0, the empty string, \<^verbatim>\<open>null\<close> or \<^verbatim>\<open>false\<close>), otherwise
  \<^verbatim>\<open>balance\<close> when that is truthy, otherwise 0; the group is \<^verbatim>\<open>parent\<close> when truthy,
  otherwise \<^verbatim>\<open>group\<close> when truthy, otherwise \<^verbatim>\<open>'N/A'\<close>.
\<close>

theorem ledger_aliases_first_truthy:
  assumes "\<not> nullish ledger"
  shows "ledger_balance ledger =
           Some (if truthy (field ledger ''opening_balance'') then field ledger ''opening_balance''
                 else if truthy (field ledger ''balance'') then field ledger ''balance''
                 else JNum 0)
       \<and> ledger_group ledger =
           Some (if truthy (field ledger ''parent'') then field ledger ''parent''
                 else if truthy (field ledger ''group'') then field ledger ''group''
                 else JStr ''N/A'')"
  using assms by (simp add: ledger_balance_def ledger_group_def not_nullish_get)

theorem ledger_aliases_first_truthy_witness:
  "\<not> nullish cash_ledger
   \<and> ledger_balance cash_ledger = Some (JNum 500)
   \<and> ledger_group cash_ledger = Some (JStr ''Current Assets'')"
proof -
  have n: "\<not> nullish cash_ledger" by (simp add: nullish_def cash_ledger_def)
  have f: "field cash_ledger ''opening_balance'' = JNum 0" "field cash_ledger ''balance'' = JNum 500"
    "field cash_ledger ''parent'' = JStr []" "field cash_ledger ''group'' = JStr ''Current Assets''"
    by (simp_all add: field_def cash_ledger_def own_prop_def)
  show ?thesis
    using n ledger_aliases_first_truthy [OF n] by (simp add: f)
qed

section \<open>Tally real-time data: polling\<close>


datatype fetch_trigger = ByStart | ByInterval | ByButton

record fetcher =
  isConnected :: bool
  isDataFetching :: bool
  intervalRef :: "nat option"
  timers :: "nat list"
  next_timer :: nat
  awaiting :: nat
  requests :: "fetch_trigger list"
  shown :: "string list"






























end
